theory Spec2Isabelle
  imports Complex_Main "HOL-Library.Stream" "HOL-Library.Sublist"
begin

section \<open>Strings, the random source and the engine's configuration\<close>

text \<open>
  A JavaScript string is a sequence of UTF-16 code units; \<open>length\<close>, indexing,
  \<open>split('')\<close> and the regular expressions of \<open>deaf-simulator.ts\<close> (none has the
  \<open>u\<close> flag) all work on code units. A code unit is a natural number here, and
  \<open>str\<close> reads an ASCII literal.
\<close>

type_synonym jschar = nat
type_synonym jsstring = "nat list"

definition str :: "string \<Rightarrow> jsstring" where
  "str s = map of_char s"

text \<open>
  \<open>Math.random()\<close> returns a double in \<open>[0, 1)\<close>, read here as the real number it denotes.
  The ambient generator is an infinite stream of draws: a call reads the head and
  leaves the tail.
\<close>

type_synonym rng = "real stream"

text \<open>
  The class \<open>\s\<close> of a regular expression, which is also what \<open>trim\<close> strips:
  the WhiteSpace and LineTerminator code points of ECMAScript.
\<close>

definition isWhiteSpace :: "jschar \<Rightarrow> bool" where
  "isWhiteSpace c \<longleftrightarrow>
     c = 9 \<or> c = 10 \<or> c = 11 \<or> c = 12 \<or> c = 13 \<or> c = 32 \<or> c = 160 \<or> c = 5760 \<or>
     (8192 \<le> c \<and> c \<le> 8202) \<or> c = 8232 \<or> c = 8233 \<or> c = 8239 \<or> c = 8287 \<or>
     c = 12288 \<or> c = 65279"

text \<open>
  \<open>toLowerCase\<close> and \<open>toUpperCase\<close>. The engine applies them to an element of the
  working sequence before looking it up in a confusion table whose keys are ASCII
  lower-case letters, and to a replacement taken from the table. The model follows
  ECMAScript on ASCII and on U+212A (KELVIN SIGN, whose lower case is \<open>k\<close> and which
  is its own upper case); these are the only code units whose lower case is built
  from ASCII letters. On any other code unit the model is the identity: the real
  mapping yields a string that is no key of a table either, and \<open>getSimilarChar\<close>
  then returns its argument in both.
\<close>

definition lowerUnit :: "jschar \<Rightarrow> jschar" where
  "lowerUnit c = (if 65 \<le> c \<and> c \<le> 90 then c + 32 else if c = 8490 then 107 else c)"

definition upperUnit :: "jschar \<Rightarrow> jschar" where
  "upperUnit c = (if 97 \<le> c \<and> c \<le> 122 then c - 32 else c)"

definition toLowerCase :: "jsstring \<Rightarrow> jsstring" where
  "toLowerCase s = map lowerUnit s"

definition toUpperCase :: "jsstring \<Rightarrow> jsstring" where
  "toUpperCase s = map upperUnit s"

text \<open>
  \<open>DeafSimulatorConfig\<close> and the two private fields of the class. TypeScript's
  \<open>Language\<close> type is erased at run time, where the field holds whatever string the
  caller passed, so it is a string here. The level is an integer.
\<close>

record DeafSimulatorConfig =
  config_level :: int
  config_language :: string

record DeafSimulator =
  level :: int
  language :: string

text \<open>
  The constructor has no \<open>throw\<close>. Its result is a sum so that the absence of a failure
  can be stated; \<open>InvalidConfiguration\<close> is the error the specification names.
\<close>

datatype error = InvalidConfiguration

definition new_DeafSimulator :: "DeafSimulatorConfig \<Rightarrow> error + DeafSimulator" where
  "new_DeafSimulator config =
     Inr \<lparr> level = max 1 (min 10 (config_level config)),
           language = config_language config \<rparr>"

definition getLevel :: "DeafSimulator \<Rightarrow> int" where
  "getLevel s = level s"

definition getLanguage :: "DeafSimulator \<Rightarrow> string" where
  "getLanguage s = language s"

section \<open>The action selector\<close>

datatype action = Keep | Garble | Partial | Drop

definition recognitionRates :: "(int \<times> int) list" where
  "recognitionRates =
     [(1, 97), (2, 92), (3, 85), (4, 78), (5, 70),
      (6, 60), (7, 45), (8, 30), (9, 18), (10, 8)]"

text \<open>\<open>recognitionRates[this.level] || 70\<close>: a missing entry and a zero both give 70.\<close>

definition keepRate :: "DeafSimulator \<Rightarrow> int" where
  "keepRate s =
     (case map_of recognitionRates (level s) of
        None \<Rightarrow> 70
      | Some v \<Rightarrow> if v = 0 then 70 else v)"

text \<open>
  The test \<open>/^(what|who|...)/i\<close>. Without the \<open>u\<close> flag, \<open>i\<close> compares the upper
  cases of single code units, and never lets a code unit from 128 on meet an ASCII
  one. All the letters of the alternatives are ASCII, so \<open>canonicalize\<close> folds ASCII
  only. The ninth alternative is written as the source file has it: \<open>perch\<close>
  followed by U+221A and U+00A9.
\<close>

definition canonicalize :: "jschar \<Rightarrow> jschar" where
  "canonicalize c = (if 97 \<le> c \<and> c \<le> 122 then c - 32 else c)"

definition questionWords :: "jsstring list" where
  "questionWords =
     [str ''what'', str ''who'', str ''why'', str ''when'', str ''where'', str ''how'',
      str ''cosa'', str ''chi'', str ''perch'' @ [8730, 169], str ''quando'',
      str ''dove'', str ''come'']"

definition startsWithIgnoreCase :: "jsstring \<Rightarrow> jsstring \<Rightarrow> bool" where
  "startsWithIgnoreCase p w \<longleftrightarrow>
     length p \<le> length w \<and> map canonicalize (take (length p) w) = map canonicalize p"

definition startsWithCapital :: "jsstring \<Rightarrow> bool" where
  "startsWithCapital w = (case w of [] \<Rightarrow> False | c # _ \<Rightarrow> 65 \<le> c \<and> c \<le> 90)"

definition isImportant :: "DeafSimulator \<Rightarrow> jsstring \<Rightarrow> bool" where
  "isImportant s word \<longleftrightarrow>
     length word > 5 \<or> startsWithCapital word \<or>
     list_ex (\<lambda>p. startsWithIgnoreCase p word) questionWords"

definition importanceBonus :: "DeafSimulator \<Rightarrow> jsstring \<Rightarrow> int" where
  "importanceBonus s word = (if isImportant s word then 5 else 0)"

definition keepThreshold :: "DeafSimulator \<Rightarrow> jsstring \<Rightarrow> int" where
  "keepThreshold s word = min 98 (keepRate s + importanceBonus s word)"

definition garbleRate :: "DeafSimulator \<Rightarrow> int" where
  "garbleRate s = (if level s \<le> 2 then 2 else if level s \<ge> 9 then 5 else 15)"

definition garbleThreshold :: "DeafSimulator \<Rightarrow> jsstring \<Rightarrow> int" where
  "garbleThreshold s word = keepThreshold s word + garbleRate s"

definition partialRate :: "DeafSimulator \<Rightarrow> int" where
  "partialRate s = (if level s \<le> 2 then 1 else if level s \<ge> 9 then 3 else 10)"

definition partialThreshold :: "DeafSimulator \<Rightarrow> jsstring \<Rightarrow> int" where
  "partialThreshold s word = garbleThreshold s word + partialRate s"

text \<open>
  \<open>decideAction\<close> makes one draw. The product \<open>Math.random() * 100\<close> is taken
  exactly; the thresholds it is compared with are integers.
\<close>

definition decideAction :: "DeafSimulator \<Rightarrow> jsstring \<Rightarrow> rng \<Rightarrow> action \<times> rng" where
  "decideAction s word g =
     (let roll = shd g * 100 in
      (if roll < of_int (keepThreshold s word) then Keep
       else if roll < of_int (garbleThreshold s word) then Garble
       else if roll < of_int (partialThreshold s word) then Partial
       else Drop,
       stl g))"

section \<open>The confusion tables\<close>

definition strs :: "string list \<Rightarrow> jsstring list" where
  "strs xs = map str xs"

definition agnosticMap :: "(jsstring \<times> jsstring list) list" where
  "agnosticMap =
     [(str ''a'', strs [''e'', ''o'']), (str ''e'', strs [''i'', ''a'']),
      (str ''i'', strs [''e'', ''y'']), (str ''o'', strs [''u'', ''a'']),
      (str ''u'', strs [''o'', ''a'']), (str ''b'', strs [''p'', ''d'']),
      (str ''c'', strs [''k'', ''s'']), (str ''d'', strs [''t'', ''b'']),
      (str ''f'', strs [''v'', ''s'']), (str ''g'', strs [''k'', ''j'']),
      (str ''h'', strs ['''', ''f'']), (str ''j'', strs [''g'', ''y'']),
      (str ''k'', strs [''c'', ''g'']), (str ''l'', strs [''r'', ''n'']),
      (str ''m'', strs [''n'', ''b'']), (str ''n'', strs [''m'', ''l'']),
      (str ''p'', strs [''b'', ''t'']), (str ''q'', strs [''k'', ''g'']),
      (str ''r'', strs [''l'', ''w'']), (str ''s'', strs [''z'', ''c'']),
      (str ''t'', strs [''d'', ''p'']), (str ''v'', strs [''f'', ''b'']),
      (str ''w'', strs [''v'', ''u'']), (str ''x'', strs [''s'', ''z'']),
      (str ''y'', strs [''i'', ''j'']), (str ''z'', strs [''s'', ''j''])]"

definition englishMap :: "(jsstring \<times> jsstring list) list" where
  "englishMap =
     [(str ''a'', strs [''e'', ''u'', ''o'']), (str ''e'', strs [''i'', ''a'', ''u'']),
      (str ''i'', strs [''e'', ''y'', ''u'']), (str ''o'', strs [''u'', ''a'', ''oo'']),
      (str ''u'', strs [''o'', ''a'', ''oo'']), (str ''b'', strs [''p'', ''d'', ''v'']),
      (str ''c'', strs [''k'', ''s'', ''g'']), (str ''d'', strs [''t'', ''b'', ''g'']),
      (str ''f'', strs [''v'', ''th'', ''s'']), (str ''g'', strs [''k'', ''j'', ''d'']),
      (str ''h'', strs ['''', ''f'', ''ch'']), (str ''j'', strs [''g'', ''ch'', ''y'']),
      (str ''k'', strs [''c'', ''g'', ''q'']), (str ''l'', strs [''r'', ''w'', ''n'']),
      (str ''m'', strs [''n'', ''b'', ''w'']), (str ''n'', strs [''m'', ''ng'', ''l'']),
      (str ''p'', strs [''b'', ''t'', ''f'']), (str ''q'', strs [''k'', ''g'', ''c'']),
      (str ''r'', strs [''l'', ''w'', ''y'']), (str ''s'', strs [''z'', ''sh'', ''th'']),
      (str ''t'', strs [''d'', ''th'', ''p'']), (str ''v'', strs [''f'', ''b'', ''w'']),
      (str ''w'', strs [''v'', ''r'', ''u'']), (str ''x'', strs [''s'', ''z'', ''ks'']),
      (str ''y'', strs [''i'', ''j'', ''e'']), (str ''z'', strs [''s'', ''th'', ''j''])]"

text \<open>
  The Italian literal, in the order of the source: the single letters, then the
  entries under the comments \<open>Italian double consonants\<close> and \<open>Italian digraphs\<close>.
\<close>

definition italianMap :: "(jsstring \<times> jsstring list) list" where
  "italianMap =
     [(str ''a'', strs [''e'', ''o'']), (str ''e'', strs [''i'', ''a'']),
      (str ''i'', strs [''e'', ''u'']), (str ''o'', strs [''u'', ''a'']),
      (str ''u'', strs [''o'', ''i'']), (str ''b'', strs [''p'', ''v'']),
      (str ''c'', strs [''g'', ''ch'', ''k'']), (str ''d'', strs [''t'', ''b'']),
      (str ''f'', strs [''v'', ''s'']), (str ''g'', strs [''c'', ''gh'', ''j'']),
      (str ''h'', strs ['''']), (str ''l'', strs [''r'', ''gl'']),
      (str ''m'', strs [''n'', ''mm'']), (str ''n'', strs [''m'', ''gn'', ''nn'']),
      (str ''p'', strs [''b'', ''pp'']), (str ''q'', strs [''c'', ''k'']),
      (str ''r'', strs [''l'', ''rr'']), (str ''s'', strs [''z'', ''ss'', ''sc'']),
      (str ''t'', strs [''d'', ''tt'']), (str ''v'', strs [''f'', ''b'']),
      (str ''z'', strs [''s'', ''zz'', ''ts'']),
      (str ''cc'', strs [''c'', ''gg'']), (str ''gg'', strs [''g'', ''cc'']),
      (str ''ss'', strs [''s'', ''zz'']), (str ''zz'', strs [''z'', ''ss'']),
      (str ''tt'', strs [''t'', ''dd'']), (str ''dd'', strs [''d'', ''tt'']),
      (str ''pp'', strs [''p'', ''bb'']), (str ''bb'', strs [''b'', ''pp'']),
      (str ''rr'', strs [''r'', ''ll'']), (str ''ll'', strs [''l'', ''rr'']),
      (str ''mm'', strs [''m'', ''nn'']), (str ''nn'', strs [''n'', ''mm'']),
      (str ''gl'', strs [''l'', ''gli'']), (str ''gn'', strs [''n'', ''gni'']),
      (str ''sc'', strs [''s'', ''c'']), (str ''ch'', strs [''c'', ''k'']),
      (str ''gh'', strs [''g'', ''c''])]"

text \<open>The \<open>switch\<close> on the language: \<open>agnostic\<close> shares the \<open>default\<close> branch.\<close>

definition getSimilarCharsMap :: "DeafSimulator \<Rightarrow> (jsstring \<times> jsstring list) list" where
  "getSimilarCharsMap s =
     (if language s = ''en'' then englishMap
      else if language s = ''it'' then italianMap
      else agnosticMap)"

text \<open>
  \<open>getSimilarChar\<close> receives one element of the working sequence. It draws only when
  the table has a non-empty list for the element's lower case. A replacement that is
  the empty string is falsy in JavaScript, so the element is returned as it was.
\<close>

definition getSimilarChar :: "DeafSimulator \<Rightarrow> jsstring \<Rightarrow> rng \<Rightarrow> jsstring \<times> rng" where
  "getSimilarChar s char g =
     (let lower = toLowerCase char in
      case map_of (getSimilarCharsMap s) lower of
        None \<Rightarrow> (char, g)
      | Some replacements \<Rightarrow>
          if replacements = [] then (char, g)
          else
            let idx = \<lfloor>shd g * of_nat (length replacements)\<rfloor>;
                g' = stl g
            in if idx < 0 \<or> int (length replacements) \<le> idx then (char, g')
               else
                 let replacement = replacements ! nat idx
                 in if replacement = [] then (char, g')
                    else (if char = toUpperCase char then toUpperCase replacement
                          else replacement, g'))"

section \<open>The word mangler\<close>

text \<open>
  \<open>word.split('')\<close>: one element for each code unit. The working sequence is a list
  of strings, because a substitution may write a longer string into one position.
\<close>

definition split_chars :: "jsstring \<Rightarrow> jsstring list" where
  "split_chars word = map (\<lambda>c. [c]) word"

text \<open>
  \<open>Math.ceil(word.length * (this.level / 20))\<close>. For the levels 1 to 10 the double
  product has the ceiling of the exact one, so the exact one is taken. The loop test
  \<open>i < numChanges\<close> starts from \<open>i = 0\<close>, so a negative count acts as zero.
\<close>

definition numChanges :: "DeafSimulator \<Rightarrow> jsstring \<Rightarrow> nat" where
  "numChanges s word = nat \<lceil>of_nat (length word) * (of_int (level s) / 20 :: real)\<rceil>"

text \<open>
  One pass through the loop body after the \<open>break\<close> test: a draw for the position,
  a draw for the operation, and the operation. An index outside the sequence reads
  \<open>undefined\<close>, which the body answers with \<open>continue\<close>. The decimal literals are
  taken at their decimal value.
\<close>

definition garble_edit :: "DeafSimulator \<Rightarrow> jsstring list \<Rightarrow> rng \<Rightarrow> jsstring list \<times> rng" where
  "garble_edit s chars g =
     (let pos = \<lfloor>shd g * of_nat (length chars)\<rfloor>;
          action = shd (stl g);
          g2 = stl (stl g)
      in if pos < 0 \<or> int (length chars) \<le> pos then (chars, g2)
         else
           let p = nat pos; currentChar = chars ! p
           in if action < 4 / 10 then
                (case getSimilarChar s currentChar g2 of
                   (c, g3) \<Rightarrow> (chars[p := c], g3))
              else if action < 7 / 10 then
                (if p + 1 < length chars
                 then (chars[p := chars ! (p + 1), p + 1 := currentChar], g2)
                 else (chars, g2))
              else (take p chars @ drop (p + 1) chars, g2))"

text \<open>
  The \<open>for\<close> loop, with its counter: the result carries the value of \<open>i\<close> at which
  the loop was left, that is, the number of passes completed.
\<close>

function garble_loop ::
  "DeafSimulator \<Rightarrow> nat \<Rightarrow> nat \<Rightarrow> jsstring list \<Rightarrow> rng \<Rightarrow> nat \<times> jsstring list \<times> rng" where
  "garble_loop s n i chars g =
     (if i < n then
        (if chars = [] then (i, chars, g)
         else garble_loop s n (Suc i) (fst (garble_edit s chars g)) (snd (garble_edit s chars g)))
      else (i, chars, g))"
  by pat_completeness auto
termination
  by (relation "measure (\<lambda>(s, n, i, chars, g). n - i)") auto

definition garbleWord :: "DeafSimulator \<Rightarrow> jsstring \<Rightarrow> rng \<Rightarrow> jsstring \<times> rng" where
  "garbleWord s word g =
     (if length word \<le> 2 then (word, g)
      else
        case garble_loop s (numChanges s word) 0 (split_chars word) g of
          (i, chars, g') \<Rightarrow> (concat chars, g'))"

text \<open>
  \<open>partialWord\<close>. On the empty word \<open>word[0]\<close> is \<open>undefined\<close>, and string
  concatenation writes it out. The double \<open>length * (1 - level / 15)\<close> has the floor
  of the exact product for the levels 1 to 10. \<open>slice(-keepLength)\<close> with
  \<open>keepLength \<ge> 1\<close> keeps the last \<open>keepLength\<close> code units, or the whole word.
\<close>

definition keepLength :: "DeafSimulator \<Rightarrow> jsstring \<Rightarrow> int" where
  "keepLength s word =
     (let keepRatio = 1 - of_int (level s) / 15 :: real
      in max 1 \<lfloor>of_nat (length word) * keepRatio\<rfloor>)"

definition partialWord :: "DeafSimulator \<Rightarrow> jsstring \<Rightarrow> rng \<Rightarrow> jsstring \<times> rng" where
  "partialWord s word g =
     (if length word \<le> 3 then
        ((case word of [] \<Rightarrow> str ''undefined'' | c # _ \<Rightarrow> [c]) @ str ''...'', g)
      else if shd g < 6 / 10 then
        (take (nat (keepLength s word)) word @ str ''...'', stl g)
      else
        (str ''...'' @ drop (length word - nat (keepLength s word)) word, stl g))"

section \<open>Splitting, joining and the result\<close>

text \<open>
  \<open>input.split(/\s+/)\<close>: the separators are the maximal runs of white space. The
  piece before the first separator and the piece after the last one are always
  part of the result, also when they are empty, so the result has at least one
  element: the empty string gives one empty piece.
\<close>

function split_ws :: "jsstring \<Rightarrow> jsstring list" where
  "split_ws input =
     (case dropWhile (\<lambda>c. \<not> isWhiteSpace c) input of
        [] \<Rightarrow> [input]
      | c # rest \<Rightarrow>
          takeWhile (\<lambda>c. \<not> isWhiteSpace c) input # split_ws (dropWhile isWhiteSpace rest))"
  by pat_completeness auto
termination
proof (relation "measure length")
  show "wf (measure length)" by simp
next
  fix input :: jsstring and c rest
  assume "dropWhile (\<lambda>c. \<not> isWhiteSpace c) input = c # rest"
  then have "length input \<ge> length (c # rest)"
    by (metis length_dropWhile_le)
  moreover have "length (dropWhile isWhiteSpace rest) \<le> length rest"
    by (rule length_dropWhile_le)
  ultimately show "(dropWhile isWhiteSpace rest, input) \<in> measure length"
    by simp
qed

text \<open>\<open>degradedWords.join(' ')\<close>.\<close>

fun join_space :: "jsstring list \<Rightarrow> jsstring" where
  "join_space [] = []"
| "join_space [w] = w"
| "join_space (w # ws) = w @ 32 # join_space ws"

text \<open>\<open>replace(/\s+/g, ' ')\<close>: each maximal run of white space becomes one space.\<close>

function collapse_ws :: "jsstring \<Rightarrow> jsstring" where
  "collapse_ws [] = []"
| "collapse_ws (c # cs) =
     (if isWhiteSpace c then 32 # collapse_ws (dropWhile isWhiteSpace cs)
      else c # collapse_ws cs)"
  by pat_completeness auto
termination
proof (relation "measure length")
  show "wf (measure length)" by simp
next
  fix c :: jschar and cs :: jsstring
  have "length (dropWhile isWhiteSpace cs) \<le> length cs"
    by (rule length_dropWhile_le)
  then show "(dropWhile isWhiteSpace cs, c # cs) \<in> measure length"
    by simp
next
  fix c :: jschar and cs :: jsstring
  show "(cs, c # cs) \<in> measure length" by simp
qed

definition trim :: "jsstring \<Rightarrow> jsstring" where
  "trim t = rev (dropWhile isWhiteSpace (rev (dropWhile isWhiteSpace t)))"

text \<open>\<open>Math.round\<close> rounds a half upwards.\<close>

definition math_round :: "real \<Rightarrow> int" where
  "math_round x = \<lfloor>x + 1 / 2\<rfloor>"

definition placeholder :: jsstring where
  "placeholder = str ''[...]''"

text \<open>
  The \<open>for ... of\<close> loop of \<open>simulate\<close>, with the two variables it updates. The
  draw for the placeholder is made only at level 7 and above (\<open>&&\<close> evaluates its
  right operand only then).
\<close>

fun simulate_loop ::
  "DeafSimulator \<Rightarrow> jsstring list \<Rightarrow> jsstring list \<Rightarrow> nat \<Rightarrow> rng
     \<Rightarrow> jsstring list \<times> nat \<times> rng" where
  "simulate_loop s [] degradedWords droppedCount g = (degradedWords, droppedCount, g)"
| "simulate_loop s (word # words) degradedWords droppedCount g =
     (case decideAction s word g of
        (Keep, g1) \<Rightarrow> simulate_loop s words (degradedWords @ [word]) droppedCount g1
      | (Garble, g1) \<Rightarrow>
          simulate_loop s words (degradedWords @ [fst (garbleWord s word g1)]) droppedCount
            (snd (garbleWord s word g1))
      | (Partial, g1) \<Rightarrow>
          simulate_loop s words (degradedWords @ [fst (partialWord s word g1)]) droppedCount
            (snd (partialWord s word g1))
      | (Drop, g1) \<Rightarrow>
          if level s \<ge> 7 then
            (if shd g1 < 3 / 10
             then simulate_loop s words (degradedWords @ [placeholder]) (droppedCount + 1) (stl g1)
             else simulate_loop s words degradedWords (droppedCount + 1) (stl g1))
          else simulate_loop s words degradedWords (droppedCount + 1) g1)"

record DegradationResult =
  original :: jsstring
  degraded :: jsstring
  lossPercentage :: int

text \<open>
  The loss is computed from the number of pieces of the degraded string that differ
  from the placeholder, over the number of pieces of the input. The quotient and the
  product are exact here. A double rounds the quotient, which can move a value that is
  exactly a half to just below it (17 pieces of 40 give 57 in doubles and 58 here). The
  values evaluated below, 0, 50 and 99.5, are the same in doubles, and a bound proved
  below holds for the doubles as well.
\<close>

definition lossOf :: "jsstring list \<Rightarrow> jsstring \<Rightarrow> int" where
  "lossOf words degradedText =
     (if length words > 0 then
        math_round
          ((1 - of_nat (length (filter (\<lambda>w. w \<noteq> placeholder) (split_ws degradedText)))
                / of_nat (length words)) * 100)
      else 0)"

definition simulate :: "DeafSimulator \<Rightarrow> jsstring \<Rightarrow> rng \<Rightarrow> DegradationResult \<times> rng" where
  "simulate s input g =
     (let words = split_ws input in
      case simulate_loop s words [] 0 g of
        (degradedWords, droppedCount, g') \<Rightarrow>
          let degradedText = trim (collapse_ws (join_space degradedWords));
              loss = lossOf words degradedText
          in (\<lparr> original = input, degraded = degradedText,
                lossPercentage = max 0 loss \<rparr>, g'))"

section \<open>The importance rule as the specification words it\<close>

text \<open>
  The specification ties the interrogative prefixes to the active language. These two
  definitions follow its words, to be compared with \<open>isImportant\<close> above, which is
  the source's: the six English words for \<open>en\<close>, the six Italian ones for \<open>it\<close>
  (with \<open>perch\<close> followed by U+00E9), both sets otherwise.
\<close>

definition claimed_questionWords :: "string \<Rightarrow> jsstring list" where
  "claimed_questionWords lang =
     (if lang = ''en'' then
        [str ''what'', str ''who'', str ''why'', str ''when'', str ''where'', str ''how'']
      else if lang = ''it'' then
        [str ''cosa'', str ''chi'', str ''perch'' @ [233], str ''quando'', str ''dove'',
         str ''come'']
      else
        [str ''what'', str ''who'', str ''why'', str ''when'', str ''where'', str ''how'',
         str ''cosa'', str ''chi'', str ''perch'' @ [233], str ''quando'', str ''dove'',
         str ''come''])"

definition claimed_isImportant :: "string \<Rightarrow> jsstring \<Rightarrow> bool" where
  "claimed_isImportant lang word \<longleftrightarrow>
     length word > 5 \<or> startsWithCapital word \<or>
     list_ex (\<lambda>p. prefix (map canonicalize p) (map canonicalize word))
       (claimed_questionWords lang)"

section \<open>Evaluation and basic facts\<close>

declare garble_loop.simps [simp del]

lemma str_simps: "str [] = []" "str (c # cs) = of_char c # str cs"
  by (simp_all add: str_def)

lemma level_cases:
  assumes "1 \<le> (l::int)" and "l \<le> 10"
  shows "l = 1 \<or> l = 2 \<or> l = 3 \<or> l = 4 \<or> l = 5 \<or> l = 6 \<or> l = 7 \<or> l = 8 \<or> l = 9 \<or> l = 10"
  using assms by arith

lemma keepRate_hit:
  assumes "1 \<le> level s" and "level s \<le> 10"
  shows "map_of recognitionRates (level s) = Some (keepRate s)"
  using level_cases [OF assms] by (auto simp: keepRate_def recognitionRates_def)

lemma keepRate_range:
  assumes "1 \<le> level s" and "level s \<le> 10"
  shows "8 \<le> keepRate s \<and> keepRate s \<le> 97"
  using level_cases [OF assms] by (auto simp: keepRate_def recognitionRates_def)

lemma keepRate_mono:
  assumes "1 \<le> level s1" and "level s1 < level s2" and "level s2 \<le> 10"
  shows "keepRate s2 \<le> keepRate s1"
proof -
  have a: "1 \<le> level s2" "level s1 \<le> 10" using assms by arith+
  have "level s1 = 1 \<or> level s1 = 2 \<or> level s1 = 3 \<or> level s1 = 4 \<or> level s1 = 5 \<or>
        level s1 = 6 \<or> level s1 = 7 \<or> level s1 = 8 \<or> level s1 = 9 \<or> level s1 = 10"
    by (rule level_cases [OF assms(1) a(2)])
  moreover
  have "level s2 = 1 \<or> level s2 = 2 \<or> level s2 = 3 \<or> level s2 = 4 \<or> level s2 = 5 \<or>
        level s2 = 6 \<or> level s2 = 7 \<or> level s2 = 8 \<or> level s2 = 9 \<or> level s2 = 10"
    by (rule level_cases [OF a(1) assms(3)])
  ultimately show ?thesis
    using assms(2) by (elim disjE) (simp_all add: keepRate_def recognitionRates_def)
qed

lemma importanceBonus_any_simulator: "importanceBonus s1 w = importanceBonus s2 w"
  by (simp add: importanceBonus_def isImportant_def)

section \<open>The action selector: thresholds\<close>

text \<open>
  Claim C1. At a level from 1 to 10 the table lookup succeeds, so the fallback 70 is
  not used; the roll is the draw times 100 and lies in \<open>[0, 100)\<close> when the draw lies
  in \<open>[0, 1)\<close>; \<open>keepThreshold\<close> is the minimum of 98 and base rate plus bonus; the
  garble and partial rates are 2 and 1 up to level 2, 5 and 3 from level 9, 15 and 10
  between; and the action is keep, garble, partial or drop by comparing the roll with
  the cumulative sums, in that order. One draw is consumed.
\<close>

theorem decideAction_cumulative_thresholds:
  assumes "1 \<le> level s" and "level s \<le> 10" and "0 \<le> shd g" and "shd g < 1"
  shows "0 \<le> shd g * 100 \<and> shd g * 100 < 100 \<and>
         snd (decideAction s word g) = stl g \<and>
         map_of recognitionRates (level s) = Some (keepRate s) \<and>
         keepThreshold s word = min 98 (keepRate s + importanceBonus s word) \<and>
         garbleRate s = (if level s \<le> 2 then 2 else if level s \<ge> 9 then 5 else 15) \<and>
         partialRate s = (if level s \<le> 2 then 1 else if level s \<ge> 9 then 3 else 10) \<and>
         fst (decideAction s word g) =
           (if shd g * 100 < real_of_int (keepThreshold s word) then Keep
            else if shd g * 100 < real_of_int (keepThreshold s word + garbleRate s) then Garble
            else if shd g * 100
                      < real_of_int (keepThreshold s word + garbleRate s + partialRate s)
            then Partial
            else Drop)"
  using assms keepRate_hit [OF assms(1,2)]
  by (simp add: decideAction_def garbleThreshold_def partialThreshold_def keepThreshold_def
      garbleRate_def partialRate_def)

theorem decideAction_cumulative_thresholds_witness:
  "(1::int) \<le> level \<lparr>level = 5, language = ''en''\<rparr> \<and>
   level \<lparr>level = 5, language = ''en''\<rparr> \<le> 10 \<and>
   (0::real) \<le> shd (sconst (9 / 10)) \<and> shd (sconst (9 / 10)) < (1::real) \<and>
   keepThreshold \<lparr>level = 5, language = ''en''\<rparr> (str ''hi'') = 70 \<and>
   decideAction \<lparr>level = 5, language = ''en''\<rparr> (str ''hi'') (sconst (9 / 10))
     = (Partial, sconst (9 / 10))"
  using decideAction_cumulative_thresholds
    [of "\<lparr>level = 5, language = ''en''\<rparr>" "sconst (9 / 10)" "str ''hi''"]
  by (simp add: prod_eq_iff keepRate_def recognitionRates_def importanceBonus_def
      isImportant_def startsWithCapital_def questionWords_def startsWithIgnoreCase_def
      garbleRate_def partialRate_def str_simps)

section \<open>Engine construction\<close>

text \<open>
  Claim C4, as stated, fails in its second half: the constructor accepts a language
  outside the three modes. Here it is given \<open>fr\<close> and returns an engine.
\<close>

theorem constructor_accepts_unrecognized_language:
  "new_DeafSimulator \<lparr>config_level = 5, config_language = ''fr''\<rparr>
     = Inr \<lparr>level = 5, language = ''fr''\<rparr> \<and>
   new_DeafSimulator \<lparr>config_level = 5, config_language = ''fr''\<rparr> \<noteq> Inl InvalidConfiguration"
  by (simp add: new_DeafSimulator_def)

text \<open>
  Claim C4, amended. Construction never fails. It clamps every integer level into
  1 to 10 (below 1 gives 1, above 10 gives 10, a level in range is kept) and stores
  the language as given; a language other than \<open>en\<close> and \<open>it\<close>, recognized or not,
  selects the agnostic confusion table.
\<close>

theorem constructor_clamps_and_never_fails:
  "\<exists>s. new_DeafSimulator config = Inr s \<and>
       level s = max 1 (min 10 (config_level config)) \<and>
       1 \<le> level s \<and> level s \<le> 10 \<and>
       (config_level config < 1 \<longrightarrow> level s = 1) \<and>
       (10 < config_level config \<longrightarrow> level s = 10) \<and>
       (1 \<le> config_level config \<and> config_level config \<le> 10
          \<longrightarrow> level s = config_level config) \<and>
       language s = config_language config \<and>
       (config_language config \<noteq> ''en'' \<and> config_language config \<noteq> ''it''
          \<longrightarrow> getSimilarCharsMap s = agnosticMap)"
  by (simp add: new_DeafSimulator_def getSimilarCharsMap_def)

theorem constructor_clamps_and_never_fails_witness:
  "\<exists>s. new_DeafSimulator \<lparr>config_level = 42, config_language = ''xx''\<rparr> = Inr s \<and>
       level s = 10 \<and> language s = ''xx'' \<and> getSimilarCharsMap s = agnosticMap"
  using constructor_clamps_and_never_fails
    [of "\<lparr>config_level = 42, config_language = ''xx''\<rparr>"]
  by auto

section \<open>The recognition profile\<close>

text \<open>
  Claim C5. The base keep rates of the levels 1 to 10 are 97, 92, 85, 78, 70, 60, 45,
  30, 18, 8. For two levels \<open>L1 < L2\<close> in that range and one token, the base rate and
  \<open>keepThreshold\<close> at \<open>L2\<close> are at most those at \<open>L1\<close>, whatever the languages. The
  roll is uniform on \<open>[0, 100)\<close> and the threshold lies in \<open>[0, 100]\<close>, so the chance
  of keep is \<open>keepThreshold / 100\<close>, and it is ordered the same way.
\<close>

theorem recognition_monotone:
  assumes "1 \<le> level s1" and "level s1 < level s2" and "level s2 \<le> 10"
  shows "map (\<lambda>l. keepRate \<lparr>level = l, language = lang\<rparr>) [1, 2, 3, 4, 5, 6, 7, 8, 9, 10]
           = [97, 92, 85, 78, 70, 60, 45, 30, 18, 8] \<and>
         keepRate s2 \<le> keepRate s1 \<and>
         keepThreshold s2 word \<le> keepThreshold s1 word \<and>
         0 \<le> real_of_int (keepThreshold s2 word) / 100 \<and>
         real_of_int (keepThreshold s2 word) / 100 \<le> real_of_int (keepThreshold s1 word) / 100 \<and>
         real_of_int (keepThreshold s1 word) / 100 \<le> 1"
proof -
  have a: "1 \<le> level s2" "level s1 \<le> 10" using assms by arith+
  have m: "keepRate s2 \<le> keepRate s1" by (rule keepRate_mono [OF assms])
  have b: "importanceBonus s1 word = importanceBonus s2 word"
    by (rule importanceBonus_any_simulator)
  have r2: "8 \<le> keepRate s2" using keepRate_range [OF a(1) assms(3)] by simp
  have i: "0 \<le> importanceBonus s2 word" by (simp add: importanceBonus_def)
  have t: "keepThreshold s2 word \<le> keepThreshold s1 word"
    using m b by (simp add: keepThreshold_def)
  have p: "0 \<le> keepThreshold s2 word" using r2 i by (simp add: keepThreshold_def)
  have q: "keepThreshold s1 word \<le> 98" by (simp add: keepThreshold_def)
  have tab: "map (\<lambda>l. keepRate \<lparr>level = l, language = lang\<rparr>) [1, 2, 3, 4, 5, 6, 7, 8, 9, 10]
           = [97, 92, 85, 78, 70, 60, 45, 30, 18, 8]"
    by (simp add: keepRate_def recognitionRates_def)
  show ?thesis using tab m t p q by simp
qed

theorem recognition_monotone_witness:
  "(1::int) \<le> level \<lparr>level = 3, language = ''it''\<rparr> \<and>
   level \<lparr>level = 3, language = ''it''\<rparr> < level \<lparr>level = 8, language = ''en''\<rparr> \<and>
   level \<lparr>level = 8, language = ''en''\<rparr> \<le> 10 \<and>
   keepThreshold \<lparr>level = 8, language = ''en''\<rparr> (str ''Hello'')
     \<le> keepThreshold \<lparr>level = 3, language = ''it''\<rparr> (str ''Hello'')"
  using recognition_monotone
    [of "\<lparr>level = 3, language = ''it''\<rparr>" "\<lparr>level = 8, language = ''en''\<rparr>" "''en''"
        "str ''Hello''"]
  by simp

section \<open>The importance bonus\<close>

lemma startsWithIgnoreCase_prefix:
  "startsWithIgnoreCase p w \<longleftrightarrow> prefix (map canonicalize p) (map canonicalize w)"
proof
  assume "startsWithIgnoreCase p w"
  then have "map canonicalize p = take (length p) (map canonicalize w)"
    by (simp add: startsWithIgnoreCase_def take_map)
  then show "prefix (map canonicalize p) (map canonicalize w)"
    by (metis take_is_prefix)
next
  assume "prefix (map canonicalize p) (map canonicalize w)"
  then obtain zs where z: "map canonicalize w = map canonicalize p @ zs"
    by (auto simp: prefix_def)
  then have "length w = length p + length zs"
    by (metis length_append length_map)
  moreover have "take (length p) (map canonicalize w) = map canonicalize p"
    using z by simp
  ultimately show "startsWithIgnoreCase p w"
    by (simp add: startsWithIgnoreCase_def take_map)
qed

lemma long_prefix_long:
  assumes "prefix (map f p) (map f w)" and "5 < length p"
  shows "5 < length w"
proof -
  have "length (map f p) \<le> length (map f w)" using assms(1) by (rule prefix_length_le)
  then show ?thesis using assms(2) by simp
qed

text \<open>
  Claim C6, as stated, fails: the bonus does not depend on the language. In English
  mode the token \<open>cosa\<close> has four code units, no capital, and starts with none of the
  English interrogatives, so the claim gives it 0; the code gives it 5.
\<close>

theorem importanceBonus_english_cosa:
  "importanceBonus \<lparr>level = 5, language = ''en''\<rparr> (str ''cosa'') = 5 \<and>
   \<not> claimed_isImportant ''en'' (str ''cosa'')"
  by (simp add: importanceBonus_def isImportant_def claimed_isImportant_def questionWords_def
      claimed_questionWords_def startsWithIgnoreCase_def startsWithCapital_def canonicalize_def
      str_simps)

text \<open>
  Claim C6, amended. In every language mode the bonus is the one the claim gives for
  agnostic mode: 5 exactly when the token has more than five code units, or starts
  with one of the letters A to Z, or starts, ASCII case ignored, with one of the twelve
  interrogatives of both languages; 0 otherwise. (Any token that starts with the ninth
  alternative has more than five code units, so its spelling makes no difference.)
\<close>

theorem importanceBonus_language_independent:
  "importanceBonus s word = (if claimed_isImportant ''agnostic'' word then 5 else 0) \<and>
   (claimed_isImportant ''agnostic'' word \<longleftrightarrow>
      length word > 5 \<or> (\<exists>c cs. word = c # cs \<and> 65 \<le> c \<and> c \<le> 90) \<or>
      (\<exists>p \<in> set (claimed_questionWords ''agnostic'').
          prefix (map canonicalize p) (map canonicalize word)))"
proof -
  have p1: "\<not> prefix (map canonicalize (str ''perch'' @ [8730, 169])) (map canonicalize word)"
    if "\<not> 5 < length word"
    using that long_prefix_long [of canonicalize "str ''perch'' @ [8730, 169]" word]
    by (auto simp: str_simps)
  have p2: "\<not> prefix (map canonicalize (str ''perch'' @ [233])) (map canonicalize word)"
    if "\<not> 5 < length word"
    using that long_prefix_long [of canonicalize "str ''perch'' @ [233]" word]
    by (auto simp: str_simps)
  have a: "isImportant s word \<longleftrightarrow> claimed_isImportant ''agnostic'' word"
  proof (cases "5 < length word")
    case True
    then show ?thesis by (simp add: isImportant_def claimed_isImportant_def)
  next
    case False
    show ?thesis
      using p1 [OF False] p2 [OF False]
      by (simp add: isImportant_def claimed_isImportant_def questionWords_def
          claimed_questionWords_def startsWithIgnoreCase_prefix)
  qed
  have b: "startsWithCapital word \<longleftrightarrow> (\<exists>c cs. word = c # cs \<and> 65 \<le> c \<and> c \<le> 90)"
    by (cases word) (simp_all add: startsWithCapital_def)
  show ?thesis
    using a b by (simp add: importanceBonus_def claimed_isImportant_def list_ex_iff)
qed

theorem importanceBonus_language_independent_witness:
  "importanceBonus \<lparr>level = 3, language = ''it''\<rparr> (str ''why'') = 5 \<and>
   importanceBonus \<lparr>level = 3, language = ''it''\<rparr> (str ''no'') = 0"
  using importanceBonus_language_independent [of "\<lparr>level = 3, language = ''it''\<rparr>" "str ''why''"]
    importanceBonus_language_independent [of "\<lparr>level = 3, language = ''it''\<rparr>" "str ''no''"]
  by (simp add: claimed_isImportant_def claimed_questionWords_def startsWithCapital_def
      canonicalize_def str_simps)

section \<open>Garbling\<close>

lemma length_toLowerCase: "length (toLowerCase c) = length c"
  by (simp add: toLowerCase_def)

lemma length_toUpperCase: "length (toUpperCase c) = length c"
  by (simp add: toUpperCase_def)

lemma agnosticMap_growth:
  "\<forall>(k, rs) \<in> set agnosticMap. \<forall>r \<in> set rs. length r \<le> length k + 1"
  by (simp add: agnosticMap_def strs_def str_def)

lemma englishMap_growth:
  "\<forall>(k, rs) \<in> set englishMap. \<forall>r \<in> set rs. length r \<le> length k + 1"
  by (simp add: englishMap_def strs_def str_def)

lemma italianMap_growth:
  "\<forall>(k, rs) \<in> set italianMap. \<forall>r \<in> set rs. length r \<le> length k + 1"
  by (simp add: italianMap_def strs_def str_def)

lemma table_growth:
  assumes "map_of (getSimilarCharsMap s) k = Some rs" and "r \<in> set rs"
  shows "length r \<le> length k + 1"
proof -
  have "(k, rs) \<in> set (getSimilarCharsMap s)" using assms(1) by (rule map_of_SomeD)
  then have "\<forall>r \<in> set rs. length r \<le> length k + 1"
    using agnosticMap_growth englishMap_growth italianMap_growth
    by (auto simp: getSimilarCharsMap_def split: if_splits)
  then show ?thesis using assms(2) by blast
qed

lemma getSimilarChar_length:
  "length (fst (getSimilarChar s c g)) \<le> length c + 1"
proof (cases "map_of (getSimilarCharsMap s) (toLowerCase c)")
  case None
  then show ?thesis by (simp add: getSimilarChar_def)
next
  case (Some rs)
  have "length (rs ! nat i) \<le> length c + 1" if "0 \<le> i" "i < int (length rs)" for i
  proof -
    have "rs ! nat i \<in> set rs" using that by simp
    from table_growth [OF Some this] show ?thesis by (simp add: length_toLowerCase)
  qed
  then show ?thesis
    using Some by (simp add: getSimilarChar_def Let_def length_toUpperCase)
qed

lemma getSimilarChar_nonempty:
  "c \<noteq> [] \<Longrightarrow> fst (getSimilarChar s c g) \<noteq> []"
  by (simp add: getSimilarChar_def Let_def toUpperCase_def split: option.splits)

lemma concat_update_length:
  assumes "p < length xs"
  shows "length (concat (xs[p := c])) + length (xs ! p) = length (concat xs) + length c"
proof -
  have a: "xs = take p xs @ xs ! p # drop (Suc p) xs"
    using assms by (rule id_take_nth_drop)
  have b: "xs[p := c] = take p xs @ c # drop (Suc p) xs"
    using assms by (rule upd_conv_take_nth_drop)
  have "length (concat xs) =
          length (concat (take p xs)) + length (xs ! p) + length (concat (drop (Suc p) xs))"
    by (subst a) simp
  moreover have "length (concat (xs[p := c])) =
          length (concat (take p xs)) + length c + length (concat (drop (Suc p) xs))"
    by (subst b) simp
  ultimately show ?thesis by simp
qed

lemma concat_swap_length:
  assumes "Suc p < length xs"
  shows "length (concat (xs[p := xs ! Suc p, Suc p := xs ! p])) = length (concat xs)"
proof -
  have p: "p < length xs" using assms by simp
  let ?ys = "xs[p := xs ! Suc p]"
  have a: "length (concat ?ys) + length (xs ! p) = length (concat xs) + length (xs ! Suc p)"
    using p by (rule concat_update_length)
  have q: "Suc p < length ?ys" using assms by simp
  have "length (concat (?ys[Suc p := xs ! p])) + length (?ys ! Suc p)
          = length (concat ?ys) + length (xs ! p)"
    using q by (rule concat_update_length)
  moreover have "?ys ! Suc p = xs ! Suc p" by simp
  ultimately show ?thesis using a by simp
qed

lemma concat_delete_length:
  assumes "p < length xs"
  shows "length (concat (take p xs @ drop (Suc p) xs)) \<le> length (concat xs)"
proof -
  have a: "xs = take p xs @ xs ! p # drop (Suc p) xs"
    using assms by (rule id_take_nth_drop)
  have "length (concat xs) =
          length (concat (take p xs)) + length (xs ! p) + length (concat (drop (Suc p) xs))"
    by (subst a) simp
  then show ?thesis by simp
qed

lemma garble_edit_cases:
  assumes skip: "fst (garble_edit s chars g) = chars \<Longrightarrow> P"
    and subst: "\<And>p h. p < length chars \<Longrightarrow>
       fst (garble_edit s chars g) = chars[p := fst (getSimilarChar s (chars ! p) h)] \<Longrightarrow> P"
    and swap: "\<And>p. Suc p < length chars \<Longrightarrow>
       fst (garble_edit s chars g) = chars[p := chars ! Suc p, Suc p := chars ! p] \<Longrightarrow> P"
    and delete: "\<And>p. p < length chars \<Longrightarrow>
       fst (garble_edit s chars g) = take p chars @ drop (Suc p) chars \<Longrightarrow> P"
  shows P
proof -
  let ?pos = "\<lfloor>shd g * real (length chars)\<rfloor>"
  let ?p = "nat ?pos"
  show P
  proof (cases "?pos < 0 \<or> int (length chars) \<le> ?pos")
    case True
    then have "fst (garble_edit s chars g) = chars"
      by (simp add: garble_edit_def Let_def)
    then show P by (rule skip)
  next
    case False
    then have "0 \<le> ?pos" and "?pos < int (length chars)" by simp_all
    then have pl: "?p < length chars" by (simp add: nat_less_iff)
    show P
    proof (cases "shd (stl g) < 4 / 10")
      case True
      with False have "fst (garble_edit s chars g)
          = chars[?p := fst (getSimilarChar s (chars ! ?p) (stl (stl g)))]"
        by (simp add: garble_edit_def Let_def split: prod.splits)
      with pl show P by (rule subst)
    next
      case notsubst: False
      show P
      proof (cases "shd (stl g) < 7 / 10")
        case True
        show P
        proof (cases "Suc ?p < length chars")
          case True
          with False notsubst \<open>shd (stl g) < 7 / 10\<close>
          have "fst (garble_edit s chars g) = chars[?p := chars ! Suc ?p, Suc ?p := chars ! ?p]"
            by (simp add: garble_edit_def Let_def)
          with True show P by (rule swap)
        next
          case last: False
          with False notsubst \<open>shd (stl g) < 7 / 10\<close>
          have "fst (garble_edit s chars g) = chars"
            by (simp add: garble_edit_def Let_def)
          then show P by (rule skip)
        qed
      next
        case notswap: False
        with False notsubst
        have "fst (garble_edit s chars g) = take ?p chars @ drop (Suc ?p) chars"
          by (simp add: garble_edit_def Let_def)
        with pl show P by (rule delete)
      qed
    qed
  qed
qed

lemma garble_edit_count:
  "length chars \<le> Suc (length (fst (garble_edit s chars g)))"
  by (rule garble_edit_cases [of s chars g]) simp_all

lemma garble_edit_nonempty_elems:
  assumes "[] \<notin> set chars"
  shows "[] \<notin> set (fst (garble_edit s chars g))"
proof (rule garble_edit_cases [of s chars g])
  assume "fst (garble_edit s chars g) = chars"
  then show ?thesis using assms by simp
next
  fix p h
  assume p: "p < length chars"
    and e: "fst (garble_edit s chars g) = chars[p := fst (getSimilarChar s (chars ! p) h)]"
  have "chars ! p \<noteq> []" using assms p by (metis nth_mem)
  then have "fst (getSimilarChar s (chars ! p) h) \<noteq> []" by (rule getSimilarChar_nonempty)
  then show ?thesis
    using assms e set_update_subset_insert [of chars p "fst (getSimilarChar s (chars ! p) h)"]
    by auto
next
  fix p
  assume p: "Suc p < length chars"
    and e: "fst (garble_edit s chars g) = chars[p := chars ! Suc p, Suc p := chars ! p]"
  have "set (chars[p := chars ! Suc p, Suc p := chars ! p]) = set chars"
    using p by simp
  then show ?thesis using assms e by simp
next
  fix p
  assume "fst (garble_edit s chars g) = take p chars @ drop (Suc p) chars"
  then show ?thesis using assms by (auto dest: in_set_takeD in_set_dropD)
qed

lemma garble_edit_growth:
  "length (concat (fst (garble_edit s chars g))) \<le> Suc (length (concat chars))"
proof (rule garble_edit_cases [of s chars g])
  assume "fst (garble_edit s chars g) = chars"
  then show ?thesis by simp
next
  fix p h
  assume p: "p < length chars"
    and e: "fst (garble_edit s chars g) = chars[p := fst (getSimilarChar s (chars ! p) h)]"
  show ?thesis
    using concat_update_length [OF p, of "fst (getSimilarChar s (chars ! p) h)"]
      getSimilarChar_length [of s "chars ! p" h] e by simp
next
  fix p
  assume "Suc p < length chars"
    and "fst (garble_edit s chars g) = chars[p := chars ! Suc p, Suc p := chars ! p]"
  then show ?thesis using concat_swap_length [of p chars] by simp
next
  fix p
  assume "p < length chars"
    and "fst (garble_edit s chars g) = take p chars @ drop (Suc p) chars"
  then show ?thesis using concat_delete_length [of p chars] by simp
qed

lemma garble_loop_invariant:
  assumes "n - i < length chars" and "[] \<notin> set chars" and "i \<le> n"
  shows "fst (garble_loop s n i chars g) = n \<and>
         fst (snd (garble_loop s n i chars g)) \<noteq> [] \<and>
         [] \<notin> set (fst (snd (garble_loop s n i chars g))) \<and>
         length (concat (fst (snd (garble_loop s n i chars g))))
           \<le> length (concat chars) + (n - i)"
  using assms
proof (induction s n i chars g rule: garble_loop.induct)
  case (1 s n i chars g)
  show ?case
  proof (cases "i < n")
    case False
    then have "garble_loop s n i chars g = (i, chars, g)"
      by (subst garble_loop.simps) simp
    moreover have "i = n" using False "1.prems"(3) by simp
    moreover have "chars \<noteq> []" using "1.prems"(1) by auto
    ultimately show ?thesis using "1.prems"(2) by simp
  next
    case True
    let ?chars = "fst (garble_edit s chars g)"
    let ?g = "snd (garble_edit s chars g)"
    have ne: "chars \<noteq> []" using "1.prems"(1) by auto
    have a: "n - Suc i < length ?chars"
      using garble_edit_count [of chars s g] "1.prems"(1) True by simp
    have b: "[] \<notin> set ?chars" using "1.prems"(2) by (rule garble_edit_nonempty_elems)
    have c: "Suc i \<le> n" using True by simp
    have ih: "fst (garble_loop s n (Suc i) ?chars ?g) = n \<and>
         fst (snd (garble_loop s n (Suc i) ?chars ?g)) \<noteq> [] \<and>
         [] \<notin> set (fst (snd (garble_loop s n (Suc i) ?chars ?g))) \<and>
         length (concat (fst (snd (garble_loop s n (Suc i) ?chars ?g))))
           \<le> length (concat ?chars) + (n - Suc i)"
      using "1.IH" [OF True ne a b c] .
    have step: "garble_loop s n i chars g = garble_loop s n (Suc i) ?chars ?g"
      using True ne by (subst garble_loop.simps) simp
    have "length (concat ?chars) + (n - Suc i) \<le> length (concat chars) + (n - i)"
      using garble_edit_growth [of s chars g] True by simp
    with ih step show ?thesis by simp
  qed
qed

lemma numChanges_less:
  assumes "2 \<le> length word" and "level s \<le> 10"
  shows "numChanges s word < length word"
proof -
  have "real (length word) * (real_of_int (level s) / 20) \<le> real (length word) * (10 / 20)"
    using assms(2) by (intro mult_left_mono) simp_all
  also have "\<dots> \<le> real (length word) - 1" using assms(1) by simp
  finally have "real (length word) * (real_of_int (level s) / 20)
      \<le> real_of_int (int (length word) - 1)" by simp
  then have "\<lceil>real (length word) * (real_of_int (level s) / 20)\<rceil> \<le> int (length word) - 1"
    by (rule ceiling_le)
  then have "nat \<lceil>real (length word) * (real_of_int (level s) / 20)\<rceil> < length word"
    using assms(1) by linarith
  then show ?thesis by (simp only: numChanges_def)
qed

lemma garble_loop_funpow:
  assumes "n - i < length chars" and "[] \<notin> set chars" and "i \<le> n"
  shows "garble_loop s n i chars g = (n, (case_prod (garble_edit s) ^^ (n - i)) (chars, g))"
  using assms
proof (induction s n i chars g rule: garble_loop.induct)
  case (1 s n i chars g)
  show ?case
  proof (cases "i < n")
    case False
    then have "garble_loop s n i chars g = (i, chars, g)"
      by (subst garble_loop.simps) simp
    moreover have "i = n" using False "1.prems"(3) by simp
    ultimately show ?thesis by simp
  next
    case True
    let ?chars = "fst (garble_edit s chars g)"
    let ?g = "snd (garble_edit s chars g)"
    have ne: "chars \<noteq> []" using "1.prems"(1) by auto
    have a: "n - Suc i < length ?chars"
      using garble_edit_count [of chars s g] "1.prems"(1) True by simp
    have b: "[] \<notin> set ?chars" using "1.prems"(2) by (rule garble_edit_nonempty_elems)
    have c: "Suc i \<le> n" using True by simp
    have ih: "garble_loop s n (Suc i) ?chars ?g
                = (n, (case_prod (garble_edit s) ^^ (n - Suc i)) (?chars, ?g))"
      using "1.IH" [OF True ne a b c] .
    have step: "garble_loop s n i chars g = garble_loop s n (Suc i) ?chars ?g"
      using True ne by (subst garble_loop.simps) simp
    have d: "n - i = Suc (n - Suc i)" using True by simp
    have "(case_prod (garble_edit s) ^^ (n - i)) (chars, g)
            = (case_prod (garble_edit s) ^^ (n - Suc i)) (case_prod (garble_edit s) (chars, g))"
      unfolding d by (simp add: funpow_swap1)
    also have "case_prod (garble_edit s) (chars, g) = (?chars, ?g)" by simp
    finally show ?thesis using step ih by simp
  qed
qed

lemma garble_edit_in_range:
  assumes "chars \<noteq> []" and "0 \<le> shd g" and "shd g < 1"
  shows "nat \<lfloor>shd g * real (length chars)\<rfloor> < length chars \<and>
         garble_edit s chars g =
           (if shd (stl g) < 4 / 10 then
              (chars[nat \<lfloor>shd g * real (length chars)\<rfloor> :=
                 fst (getSimilarChar s (chars ! nat \<lfloor>shd g * real (length chars)\<rfloor>)
                        (stl (stl g)))],
               snd (getSimilarChar s (chars ! nat \<lfloor>shd g * real (length chars)\<rfloor>)
                      (stl (stl g))))
            else if shd (stl g) < 7 / 10 then
              (if nat \<lfloor>shd g * real (length chars)\<rfloor> + 1 < length chars
               then chars[nat \<lfloor>shd g * real (length chars)\<rfloor> :=
                            chars ! (nat \<lfloor>shd g * real (length chars)\<rfloor> + 1),
                          nat \<lfloor>shd g * real (length chars)\<rfloor> + 1 :=
                            chars ! nat \<lfloor>shd g * real (length chars)\<rfloor>]
               else chars,
               stl (stl g))
            else
              (take (nat \<lfloor>shd g * real (length chars)\<rfloor>) chars
                 @ drop (nat \<lfloor>shd g * real (length chars)\<rfloor> + 1) chars,
               stl (stl g)))"
proof -
  have l: "0 < real (length chars)" using assms(1) by simp
  have "0 \<le> shd g * real (length chars)" using assms(2) by simp
  then have lo: "0 \<le> \<lfloor>shd g * real (length chars)\<rfloor>" by simp
  have "shd g * real (length chars) < 1 * real (length chars)"
    using assms(3) l by (intro mult_strict_right_mono)
  then have "shd g * real (length chars) < real_of_int (int (length chars))" by simp
  then have hi: "\<lfloor>shd g * real (length chars)\<rfloor> < int (length chars)"
    by (simp only: floor_less_iff)
  have p: "nat \<lfloor>shd g * real (length chars)\<rfloor> < length chars"
    using lo hi by (simp add: nat_less_iff)
  show ?thesis
    using lo hi p by (simp add: garble_edit_def Let_def split: prod.splits)
qed

lemma hello_run:
  "garbleWord \<lparr>level = 10, language = ''en''\<rparr> (str ''hello'')
       (0 ## 1 / 10 ## 9 / 10 ## 3 / 10 ## 1 / 2 ## 9 / 10 ## 4 / 5 ## sconst 0)
     = (str ''chlel'', sconst 0)"
  by (simp add: garbleWord_def numChanges_def garble_edit_def getSimilarChar_def
      getSimilarCharsMap_def englishMap_def strs_def split_chars_def toLowerCase_def
      lowerUnit_def toUpperCase_def upperUnit_def Let_def str_simps garble_loop.simps)


text \<open>
  Claim C7. A token of at most two code units is returned unchanged and no draw is
  made. For a longer token at a level from 1 to 10, the number of edits is the ceiling
  of length times level over 20, and \<open>garbleWord\<close> returns the working sequence,
  joined, after exactly that many passes of the loop body applied one after the other
  to the split token: the loop ends with its counter at that number, since the working
  sequence never runs empty and \<open>break\<close> is not taken. The output is at most that
  many code units longer than the token, and a non-empty token never gives the empty
  string. One pass, on a non-empty working sequence and a draw in \<open>[0, 1)\<close>, picks
  a position inside the sequence and substitutes the element there (second draw below
  0.4), swaps it with its right neighbour if it has one (below 0.7), or deletes it. The
  last conjunct runs three edits on \<open>hello\<close>: \<open>h\<close> becomes \<open>ch\<close>, \<open>e\<close> and
  \<open>l\<close> are swapped, \<open>o\<close> is deleted.
\<close>

theorem garbleWord_edit_bounds:
  "(length word \<le> 2 \<longrightarrow> garbleWord s word g = (word, g)) \<and>
   (2 < length word \<and> 1 \<le> level s \<and> level s \<le> 10 \<longrightarrow>
      int (numChanges s word) = \<lceil>real (length word) * real_of_int (level s) / 20\<rceil> \<and>
      garble_loop s (numChanges s word) 0 (split_chars word) g
        = (numChanges s word,
           (case_prod (garble_edit s) ^^ numChanges s word) (split_chars word, g)) \<and>
      garbleWord s word g
        = (concat (fst ((case_prod (garble_edit s) ^^ numChanges s word) (split_chars word, g))),
           snd ((case_prod (garble_edit s) ^^ numChanges s word) (split_chars word, g))) \<and>
      length (fst (garbleWord s word g)) \<le> length word + numChanges s word) \<and>
   (word \<noteq> [] \<and> level s \<le> 10 \<longrightarrow> fst (garbleWord s word g) \<noteq> []) \<and>
   (chars \<noteq> [] \<and> 0 \<le> shd g \<and> shd g < 1 \<longrightarrow>
      nat \<lfloor>shd g * real (length chars)\<rfloor> < length chars \<and>
      garble_edit s chars g =
        (if shd (stl g) < 4 / 10 then
           (chars[nat \<lfloor>shd g * real (length chars)\<rfloor> :=
              fst (getSimilarChar s (chars ! nat \<lfloor>shd g * real (length chars)\<rfloor>)
                     (stl (stl g)))],
            snd (getSimilarChar s (chars ! nat \<lfloor>shd g * real (length chars)\<rfloor>)
                   (stl (stl g))))
         else if shd (stl g) < 7 / 10 then
           (if nat \<lfloor>shd g * real (length chars)\<rfloor> + 1 < length chars
            then chars[nat \<lfloor>shd g * real (length chars)\<rfloor> :=
                         chars ! (nat \<lfloor>shd g * real (length chars)\<rfloor> + 1),
                       nat \<lfloor>shd g * real (length chars)\<rfloor> + 1 :=
                         chars ! nat \<lfloor>shd g * real (length chars)\<rfloor>]
            else chars,
            stl (stl g))
         else
           (take (nat \<lfloor>shd g * real (length chars)\<rfloor>) chars
              @ drop (nat \<lfloor>shd g * real (length chars)\<rfloor> + 1) chars,
            stl (stl g)))) \<and>
   garbleWord \<lparr>level = 10, language = ''en''\<rparr> (str ''hello'')
       (0 ## 1 / 10 ## 9 / 10 ## 3 / 10 ## 1 / 2 ## 9 / 10 ## 4 / 5 ## sconst 0)
     = (str ''chlel'', sconst 0)"
proof -
  let ?run = "(case_prod (garble_edit s) ^^ numChanges s word) (split_chars word, g)"
  have short: "garbleWord s word g = (word, g)" if "length word \<le> 2"
    using that by (simp add: garbleWord_def)
  have long: "garble_loop s (numChanges s word) 0 (split_chars word) g
        = (numChanges s word, ?run) \<and>
      garbleWord s word g = (concat (fst ?run), snd ?run) \<and>
      length (fst (garbleWord s word g)) \<le> length word + numChanges s word \<and>
      fst (garbleWord s word g) \<noteq> []" if l: "2 < length word" and u: "level s \<le> 10"
  proof -
    have a: "numChanges s word - 0 < length (split_chars word)"
      using numChanges_less [of word s] l u by (simp add: split_chars_def)
    have b: "[] \<notin> set (split_chars word)" by (auto simp: split_chars_def)
    have c: "concat (split_chars word) = word" by (induction word) (simp_all add: split_chars_def)
    have f: "garble_loop s (numChanges s word) 0 (split_chars word) g
               = (numChanges s word, ?run)"
      using garble_loop_funpow [OF a b, of s g] by simp
    have w: "garbleWord s word g = (concat (fst ?run), snd ?run)"
      using l by (simp add: garbleWord_def f split: prod.splits)
    from garble_loop_invariant [OF a b, of s g] c
    have inv: "fst ?run \<noteq> []" "[] \<notin> set (fst ?run)"
      "length (concat (fst ?run)) \<le> length word + numChanges s word"
      unfolding f by simp_all
    have "concat (fst ?run) \<noteq> []" using inv(1,2) by (cases "fst ?run") auto
    then show ?thesis using f w inv(3) by simp
  qed
  have cnt: "int (numChanges s word) = \<lceil>real (length word) * real_of_int (level s) / 20\<rceil>"
    if "1 \<le> level s"
  proof -
    have "0 \<le> real (length word) * real_of_int (level s) / 20" using that by simp
    then have "0 \<le> \<lceil>real (length word) * real_of_int (level s) / 20\<rceil>" by linarith
    then show ?thesis by (simp add: numChanges_def)
  qed
  have nonempty: "fst (garbleWord s word g) \<noteq> []" if "word \<noteq> []" "level s \<le> 10"
  proof (cases "length word \<le> 2")
    case True
    with that short show ?thesis by simp
  next
    case False
    then have "2 < length word" by simp
    from long [OF this that(2)] show ?thesis by (elim conjE)
  qed
  show ?thesis
  proof (intro conjI impI)
    assume "length word \<le> 2"
    then show "garbleWord s word g = (word, g)" by (rule short)
  next
    assume h: "2 < length word \<and> 1 \<le> level s \<and> level s \<le> 10"
    then show "int (numChanges s word) = \<lceil>real (length word) * real_of_int (level s) / 20\<rceil>"
      using cnt by simp
    from h have l: "2 < length word" and u: "level s \<le> 10" by simp_all
    from long [OF l u] show "garble_loop s (numChanges s word) 0 (split_chars word) g
        = (numChanges s word, ?run)" by (elim conjE)
    from long [OF l u] show "garbleWord s word g = (concat (fst ?run), snd ?run)"
      by (elim conjE)
    from long [OF l u]
    show "length (fst (garbleWord s word g)) \<le> length word + numChanges s word"
      by (elim conjE)
  next
    assume "word \<noteq> [] \<and> level s \<le> 10"
    then show "fst (garbleWord s word g) \<noteq> []" using nonempty by simp
  next
    assume h: "chars \<noteq> [] \<and> 0 \<le> shd g \<and> shd g < 1"
    then have e: "chars \<noteq> []" "0 \<le> shd g" "shd g < 1" by simp_all
    from garble_edit_in_range [OF e, of s]
    show "nat \<lfloor>shd g * real (length chars)\<rfloor> < length chars" by (rule conjunct1)
    from garble_edit_in_range [OF e, of s]
    show "garble_edit s chars g =
        (if shd (stl g) < 4 / 10 then
           (chars[nat \<lfloor>shd g * real (length chars)\<rfloor> :=
              fst (getSimilarChar s (chars ! nat \<lfloor>shd g * real (length chars)\<rfloor>)
                     (stl (stl g)))],
            snd (getSimilarChar s (chars ! nat \<lfloor>shd g * real (length chars)\<rfloor>)
                   (stl (stl g))))
         else if shd (stl g) < 7 / 10 then
           (if nat \<lfloor>shd g * real (length chars)\<rfloor> + 1 < length chars
            then chars[nat \<lfloor>shd g * real (length chars)\<rfloor> :=
                         chars ! (nat \<lfloor>shd g * real (length chars)\<rfloor> + 1),
                       nat \<lfloor>shd g * real (length chars)\<rfloor> + 1 :=
                         chars ! nat \<lfloor>shd g * real (length chars)\<rfloor>]
            else chars,
            stl (stl g))
         else
           (take (nat \<lfloor>shd g * real (length chars)\<rfloor>) chars
              @ drop (nat \<lfloor>shd g * real (length chars)\<rfloor> + 1) chars,
            stl (stl g)))" by (rule conjunct2)
  next
    show "garbleWord \<lparr>level = 10, language = ''en''\<rparr> (str ''hello'')
       (0 ## 1 / 10 ## 9 / 10 ## 3 / 10 ## 1 / 2 ## 9 / 10 ## 4 / 5 ## sconst 0)
     = (str ''chlel'', sconst 0)" by (rule hello_run)
  qed
qed

theorem garbleWord_edit_bounds_witness:
  "2 < length (str ''hello'') \<and> (1::int) \<le> level \<lparr>level = 10, language = ''en''\<rparr> \<and>
   level \<lparr>level = 10, language = ''en''\<rparr> \<le> 10 \<and>
   numChanges \<lparr>level = 10, language = ''en''\<rparr> (str ''hello'') = 3 \<and>
   garble_loop \<lparr>level = 10, language = ''en''\<rparr> 3 0 (split_chars (str ''hello''))
       (0 ## 1 / 10 ## 9 / 10 ## 3 / 10 ## 1 / 2 ## 9 / 10 ## 4 / 5 ## sconst 0)
     = (3, [str ''ch'', str ''l'', str ''e'', str ''l''], sconst 0) \<and>
   garbleWord \<lparr>level = 10, language = ''en''\<rparr> (str ''hello'')
       (0 ## 1 / 10 ## 9 / 10 ## 3 / 10 ## 1 / 2 ## 9 / 10 ## 4 / 5 ## sconst 0)
     = (str ''chlel'', sconst 0) \<and>
   length (str ''chlel'') \<le> length (str ''hello'') + 3"
proof -
  let ?s = "\<lparr>level = 10, language = ''en''\<rparr>"
  let ?g = "0 ## 1 / 10 ## 9 / 10 ## 3 / 10 ## 1 / 2 ## 9 / 10 ## 4 / 5 ## sconst (0::real)"
  have l: "length (str ''hello'') = 5" by (simp add: str_simps)
  have n: "numChanges ?s (str ''hello'') = 3" by (simp add: numChanges_def l)
  have r: "(case_prod (garble_edit ?s) ^^ 3) (split_chars (str ''hello''), ?g)
             = ([str ''ch'', str ''l'', str ''e'', str ''l''], sconst 0)"
    by (simp add: numeral_3_eq_3 funpow_swap1 garble_edit_def getSimilarChar_def
        getSimilarCharsMap_def englishMap_def strs_def split_chars_def toLowerCase_def
        lowerUnit_def toUpperCase_def upperUnit_def Let_def str_simps)
  have t: "2 < length (str ''hello'') \<and> (1::int) \<le> level ?s \<and> level ?s \<le> 10"
    by (simp add: l)
  from garbleWord_edit_bounds [of "str ''hello''" ?s ?g] t
  have "garble_loop ?s (numChanges ?s (str ''hello'')) 0 (split_chars (str ''hello'')) ?g
          = (numChanges ?s (str ''hello''),
             (case_prod (garble_edit ?s) ^^ numChanges ?s (str ''hello''))
               (split_chars (str ''hello''), ?g))"
    and "garbleWord ?s (str ''hello'') ?g
          = (concat (fst ((case_prod (garble_edit ?s) ^^ numChanges ?s (str ''hello''))
               (split_chars (str ''hello''), ?g))),
             snd ((case_prod (garble_edit ?s) ^^ numChanges ?s (str ''hello''))
               (split_chars (str ''hello''), ?g)))"
    by blast+
  then have a: "garble_loop ?s 3 0 (split_chars (str ''hello'')) ?g
          = (3, [str ''ch'', str ''l'', str ''e'', str ''l''], sconst 0)"
    and b: "garbleWord ?s (str ''hello'') ?g = (str ''chlel'', sconst 0)"
    unfolding n r by (simp_all add: str_simps)
  show ?thesis using t n a b by (simp add: str_simps)
qed

section \<open>The result of simulate\<close>

lemma decideAction_keep_or_garble:
  assumes "shd g * 100 < real_of_int (garbleThreshold s w)"
  shows "decideAction s w g = (Keep, stl g) \<or> decideAction s w g = (Garble, stl g)"
  using assms by (simp add: decideAction_def Let_def)

lemma simulate_loop_empty_kept:
  assumes "shd g * 100 < real_of_int (garbleThreshold s [])"
  shows "simulate_loop s ([] # ws) acc n g = simulate_loop s ws (acc @ [[]]) n (stl g)"
  using decideAction_keep_or_garble [OF assms] by (auto simp: garbleWord_def)

declare split_ws.simps [simp del]

lemma split_ws_Nil: "split_ws [] = [[]]"
  by (simp add: split_ws.simps)

lemma simulate_fst:
  "fst (simulate s input g) =
     \<lparr>original = input,
      degraded = trim (collapse_ws (join_space (fst (simulate_loop s (split_ws input) [] 0 g)))),
      lossPercentage = max 0 (lossOf (split_ws input)
        (trim (collapse_ws (join_space (fst (simulate_loop s (split_ws input) [] 0 g))))))\<rparr>"
  by (simp add: simulate_def Let_def split: prod.splits)

lemma split_ws_blank:
  assumes "input \<noteq> []" and "\<forall>c \<in> set input. isWhiteSpace c"
  shows "split_ws input = [[], []]"
proof -
  obtain c cs where i: "input = c # cs" using assms(1) by (cases input) auto
  then have c: "isWhiteSpace c" and cs: "\<forall>c \<in> set cs. isWhiteSpace c" using assms(2) by auto
  have d: "dropWhile isWhiteSpace cs = []" using cs by simp
  have "split_ws input = [] # split_ws (dropWhile isWhiteSpace cs)"
    using c by (simp add: i split_ws.simps [of "c # cs"])
  also have "\<dots> = [[], []]" by (simp only: d split_ws_Nil)
  finally show ?thesis .
qed

lemma simulate_loop_blank:
  assumes "shd g * 100 < real_of_int (garbleThreshold s [])"
    and "shd (stl g) * 100 < real_of_int (garbleThreshold s [])"
  shows "simulate_loop s [[], []] [] 0 g = ([[], []], 0, stl (stl g))"
  by (simp only: simulate_loop_empty_kept [OF assms(1)] simulate_loop_empty_kept [OF assms(2)]
      simulate_loop.simps(1) append_Nil append_Cons)

lemma split_hello_world: "split_ws (str ''Hello world'') = [str ''Hello'', str ''world'']"
  by (simp add: split_ws.simps str_simps isWhiteSpace_def)

lemma drop_hello:
  "decideAction \<lparr>level = 10, language = ''agnostic''\<rparr> (str ''Hello'') (sconst (99 / 100))
     = (Drop, sconst (99 / 100))"
  by (simp add: decideAction_def partialThreshold_def garbleThreshold_def keepThreshold_def
      keepRate_def recognitionRates_def importanceBonus_def garbleRate_def partialRate_def)

lemma drop_world:
  "decideAction \<lparr>level = 10, language = ''agnostic''\<rparr> (str ''world'') (sconst (99 / 100))
     = (Drop, sconst (99 / 100))"
  by (simp add: decideAction_def partialThreshold_def garbleThreshold_def keepThreshold_def
      keepRate_def recognitionRates_def importanceBonus_def garbleRate_def partialRate_def)

lemma loop_hello_world:
  "simulate_loop \<lparr>level = 10, language = ''agnostic''\<rparr> [str ''Hello'', str ''world''] [] 0
       (sconst (99 / 100))
     = ([], 2, sconst (99 / 100))"
  by (simp add: drop_hello drop_world)

lemma loss_half: "lossOf [a, b] [] = 50"
  by (simp add: lossOf_def split_ws_Nil math_round_def placeholder_def str_simps)

text \<open>
  Claim C3, evaluated on the code. Level 10, agnostic, input \<open>Hello world\<close>, every
  draw 0.99: both rolls are 99, both tokens are dropped, and both placeholder draws
  fail. The degraded string is empty, as the claim says. The loss is 50 and not 100:
  the empty degraded string is split into one empty piece, which the formula counts as
  a token that was kept, against two input tokens. The counter of dropped tokens, 2
  here, is not used by the formula.
\<close>

theorem simulate_all_dropped_reports_half:
  "decideAction \<lparr>level = 10, language = ''agnostic''\<rparr> (str ''Hello'') (sconst (99 / 100))
     = (Drop, sconst (99 / 100)) \<and>
   decideAction \<lparr>level = 10, language = ''agnostic''\<rparr> (str ''world'') (sconst (99 / 100))
     = (Drop, sconst (99 / 100)) \<and>
   simulate_loop \<lparr>level = 10, language = ''agnostic''\<rparr> [str ''Hello'', str ''world''] [] 0
       (sconst (99 / 100))
     = ([], 2, sconst (99 / 100)) \<and>
   fst (simulate \<lparr>level = 10, language = ''agnostic''\<rparr> (str ''Hello world'')
         (sconst (99 / 100)))
     = \<lparr>original = str ''Hello world'', degraded = [], lossPercentage = 50\<rparr>"
proof -
  have t: "trim (collapse_ws (join_space [])) = []" by (simp add: trim_def)
  have "fst (simulate \<lparr>level = 10, language = ''agnostic''\<rparr> (str ''Hello world'')
         (sconst (99 / 100)))
     = \<lparr>original = str ''Hello world'', degraded = [], lossPercentage = 50\<rparr>"
    unfolding simulate_fst split_hello_world loop_hello_world fst_conv t loss_half by simp
  then show ?thesis using drop_hello drop_world loop_hello_world by simp
qed

lemma keep_blank:
  "0 < garbleThreshold \<lparr>level = 1, language = ''en''\<rparr> []"
  by (simp add: garbleThreshold_def keepThreshold_def keepRate_def recognitionRates_def
      importanceBonus_def garbleRate_def)

lemma drop_empty_level10:
  "decideAction \<lparr>level = 10, language = ''agnostic''\<rparr> [] (99 / 100 ## 1 / 10 ## sconst 0)
     = (Drop, 1 / 10 ## sconst 0)"
  by (simp add: decideAction_def partialThreshold_def garbleThreshold_def keepThreshold_def
      keepRate_def recognitionRates_def importanceBonus_def isImportant_def
      startsWithCapital_def questionWords_def startsWithIgnoreCase_def garbleRate_def
      partialRate_def str_simps)

text \<open>
  Claim C2, evaluated on the code. The empty input is split into one empty token and
  an input of one space into two, never into zero, so the branch of \<open>simulate\<close> for
  an input without tokens is never taken and the empty tokens go through the action
  selector. At level 10 with the draws 0.99 and 0.1 the empty input has its token
  dropped and replaced by a placeholder: the degraded string is the placeholder and
  the loss is 100. At level 1 with every draw 0 both empty tokens of the single space
  are kept: the degraded string is empty and the loss is 50, one empty piece against
  two tokens. \<open>original\<close> is the input itself in both. The claim gives the empty
  original, the empty degraded string and loss 0.
\<close>

theorem simulate_blank_input_has_tokens:
  "split_ws [] = [[]] \<and> split_ws [32] = [[], []] \<and> isWhiteSpace 32 \<and>
   decideAction \<lparr>level = 10, language = ''agnostic''\<rparr> [] (99 / 100 ## 1 / 10 ## sconst 0)
     = (Drop, 1 / 10 ## sconst 0) \<and>
   fst (simulate \<lparr>level = 10, language = ''agnostic''\<rparr> [] (99 / 100 ## 1 / 10 ## sconst 0))
     = \<lparr>original = [], degraded = str ''[...]'', lossPercentage = 100\<rparr> \<and>
   fst (simulate \<lparr>level = 1, language = ''en''\<rparr> [32] (sconst 0))
     = \<lparr>original = [32], degraded = [], lossPercentage = 50\<rparr>"
proof -
  have w: "isWhiteSpace 32" by (simp add: isWhiteSpace_def)
  have b: "split_ws [32] = [[], []]" using w by (simp add: split_ws_blank)
  have k: "simulate_loop \<lparr>level = 1, language = ''en''\<rparr> [[], []] [] 0 (sconst 0)
             = ([[], []], 0, sconst 0)"
    using keep_blank
      simulate_loop_blank [of "sconst 0" "\<lparr>level = 1, language = ''en''\<rparr>"]
    by simp
  have t: "trim (collapse_ws (join_space [[], []])) = []"
    by (simp add: trim_def isWhiteSpace_def)
  have one: "fst (simulate \<lparr>level = 1, language = ''en''\<rparr> [32] (sconst 0))
     = \<lparr>original = [32], degraded = [], lossPercentage = 50\<rparr>"
    unfolding simulate_fst b k fst_conv t loss_half by simp
  have lp: "simulate_loop \<lparr>level = 10, language = ''agnostic''\<rparr> [[]] [] 0
               (99 / 100 ## 1 / 10 ## sconst 0)
             = ([placeholder], 1, sconst 0)"
    by (simp add: drop_empty_level10)
  have sp: "split_ws placeholder = [placeholder]"
    by (simp add: split_ws.simps placeholder_def str_simps isWhiteSpace_def)
  have tp: "trim (collapse_ws (join_space [placeholder])) = placeholder"
    by (simp add: trim_def placeholder_def str_simps isWhiteSpace_def)
  have lo: "lossOf [[]] placeholder = 100"
    unfolding lossOf_def sp by (simp add: math_round_def)
  have "fst (simulate \<lparr>level = 10, language = ''agnostic''\<rparr> []
               (99 / 100 ## 1 / 10 ## sconst 0))
     = \<lparr>original = [], degraded = placeholder, lossPercentage = 100\<rparr>"
    unfolding simulate_fst split_ws_Nil lp fst_conv tp lo by simp
  then have two: "fst (simulate \<lparr>level = 10, language = ''agnostic''\<rparr> []
               (99 / 100 ## 1 / 10 ## sconst 0))
     = \<lparr>original = [], degraded = str ''[...]'', lossPercentage = 100\<rparr>"
    by (simp add: placeholder_def)
  show ?thesis
    using split_ws_Nil b w drop_empty_level10 two one by (intro conjI)
qed

section \<open>Partial words\<close>

lemma keepLength_bounds:
  assumes "0 \<le> level s" and "1 \<le> length word"
  shows "1 \<le> keepLength s word \<and> nat (keepLength s word) \<le> length word"
proof -
  have "real (length word) * (1 - real_of_int (level s) / 15) \<le> real (length word) * 1"
    using assms(1) by (intro mult_left_mono) simp_all
  then have "\<lfloor>real (length word) * (1 - real_of_int (level s) / 15)\<rfloor> \<le> int (length word)"
    by (simp add: floor_le_iff)
  then show ?thesis using assms(2) by (simp add: keepLength_def)
qed

text \<open>
  Claim C8. For a token of more than three code units at a level from 1 to 10,
  \<open>keepLength\<close> is the maximum of 1 and the floor of length times (1 - level / 15),
  it is at least 1 and at most the length, one draw is made, and the result is the
  first \<open>keepLength\<close> code units followed by three dots when the draw is below 0.6,
  the three dots followed by the last \<open>keepLength\<close> code units otherwise: in both
  cases the dots and a non-empty kept part. A non-empty token of at most three code
  units gives its first code unit and the dots. The empty token, which has no first
  code unit, gives the text \<open>undefined...\<close>; the last conjunct shows \<open>simulate\<close>
  returning it for the empty input.
\<close>

theorem partialWord_truncation:
  "(3 < length word \<and> 1 \<le> level s \<and> level s \<le> 10 \<longrightarrow>
      keepLength s word = max 1 \<lfloor>real (length word) * (1 - real_of_int (level s) / 15)\<rfloor> \<and>
      1 \<le> keepLength s word \<and> nat (keepLength s word) \<le> length word \<and>
      snd (partialWord s word g) = stl g \<and>
      (shd g < 6 / 10 \<longrightarrow>
         fst (partialWord s word g) = take (nat (keepLength s word)) word @ str ''...'') \<and>
      (\<not> shd g < 6 / 10 \<longrightarrow>
         fst (partialWord s word g)
           = str ''...'' @ drop (length word - nat (keepLength s word)) word) \<and>
      (\<exists>kept. kept \<noteq> [] \<and> length kept = nat (keepLength s word) \<and>
         (fst (partialWord s word g) = kept @ str ''...'' \<or>
          fst (partialWord s word g) = str ''...'' @ kept))) \<and>
   (word \<noteq> [] \<and> length word \<le> 3 \<longrightarrow> partialWord s word g = (hd word # str ''...'', g)) \<and>
   partialWord s [] g = (str ''undefined...'', g) \<and>
   fst (simulate \<lparr>level = 5, language = ''en''\<rparr> [] (sconst (9 / 10)))
     = \<lparr>original = [], degraded = str ''undefined...'', lossPercentage = 0\<rparr>"
proof -
  have long: "keepLength s word = max 1 \<lfloor>real (length word) * (1 - real_of_int (level s) / 15)\<rfloor> \<and>
      1 \<le> keepLength s word \<and> nat (keepLength s word) \<le> length word \<and>
      snd (partialWord s word g) = stl g \<and>
      (shd g < 6 / 10 \<longrightarrow>
         fst (partialWord s word g) = take (nat (keepLength s word)) word @ str ''...'') \<and>
      (\<not> shd g < 6 / 10 \<longrightarrow>
         fst (partialWord s word g)
           = str ''...'' @ drop (length word - nat (keepLength s word)) word) \<and>
      (\<exists>kept. kept \<noteq> [] \<and> length kept = nat (keepLength s word) \<and>
         (fst (partialWord s word g) = kept @ str ''...'' \<or>
          fst (partialWord s word g) = str ''...'' @ kept))"
    if l: "3 < length word" and lv: "1 \<le> level s"
  proof -
    have b: "1 \<le> keepLength s word" "nat (keepLength s word) \<le> length word"
      using keepLength_bounds [of s word] l lv by simp_all
    have k: "keepLength s word = max 1 \<lfloor>real (length word) * (1 - real_of_int (level s) / 15)\<rfloor>"
      by (simp add: keepLength_def)
    have f: "fst (partialWord s word g) = take (nat (keepLength s word)) word @ str ''...''"
      if "shd g < 6 / 10"
      using that l by (simp add: partialWord_def)
    have e: "fst (partialWord s word g)
           = str ''...'' @ drop (length word - nat (keepLength s word)) word"
      if "\<not> shd g < 6 / 10"
      using that l by (simp add: partialWord_def)
    have r: "snd (partialWord s word g) = stl g" using l by (simp add: partialWord_def)
    have ex: "\<exists>kept. kept \<noteq> [] \<and> length kept = nat (keepLength s word) \<and>
         (fst (partialWord s word g) = kept @ str ''...'' \<or>
          fst (partialWord s word g) = str ''...'' @ kept)"
    proof (cases "shd g < 6 / 10")
      case True
      let ?kept = "take (nat (keepLength s word)) word"
      have "length ?kept = nat (keepLength s word)" using b by simp
      moreover have "?kept \<noteq> []" using b l by auto
      ultimately show ?thesis using f [OF True] by blast
    next
      case False
      let ?kept = "drop (length word - nat (keepLength s word)) word"
      have n: "length ?kept = nat (keepLength s word)" using b by simp
      moreover have "0 < length ?kept" unfolding n using b(1) by simp
      then have "?kept \<noteq> []" by (simp del: length_drop)
      ultimately show ?thesis using e [OF False] by blast
    qed
    show ?thesis using k b r f e ex by blast
  qed
  have short: "partialWord s word g = (hd word # str ''...'', g)"
    if "word \<noteq> []" "length word \<le> 3"
    using that by (cases word) (simp_all add: partialWord_def)
  have empty: "partialWord s [] g = (str ''undefined...'', g)"
    by (simp add: partialWord_def str_simps)
  have p: "decideAction \<lparr>level = 5, language = ''en''\<rparr> [] (sconst (9 / 10))
             = (Partial, sconst (9 / 10))"
    by (simp add: decideAction_def partialThreshold_def garbleThreshold_def keepThreshold_def
        keepRate_def recognitionRates_def importanceBonus_def isImportant_def
        startsWithCapital_def questionWords_def startsWithIgnoreCase_def garbleRate_def
        partialRate_def str_simps)
  have lp: "simulate_loop \<lparr>level = 5, language = ''en''\<rparr> [[]] [] 0 (sconst (9 / 10))
             = ([str ''undefined...''], 0, sconst (9 / 10))"
    by (simp add: p partialWord_def str_simps)
  have sp: "split_ws (str ''undefined...'') = [str ''undefined...'']"
    by (simp add: split_ws.simps str_simps isWhiteSpace_def)
  have t: "trim (collapse_ws (join_space [str ''undefined...''])) = str ''undefined...''"
    by (simp add: trim_def str_simps isWhiteSpace_def)
  have lo: "lossOf [[]] (str ''undefined...'') = 0"
    unfolding lossOf_def sp by (simp add: math_round_def placeholder_def str_simps)
  have run: "fst (simulate \<lparr>level = 5, language = ''en''\<rparr> [] (sconst (9 / 10)))
     = \<lparr>original = [], degraded = str ''undefined...'', lossPercentage = 0\<rparr>"
    unfolding simulate_fst split_ws_Nil lp fst_conv t lo by simp
  show ?thesis using long short empty run by blast
qed

theorem partialWord_truncation_witness:
  "3 < length (str ''hello'') \<and> (1::int) \<le> level \<lparr>level = 10, language = ''en''\<rparr> \<and>
   level \<lparr>level = 10, language = ''en''\<rparr> \<le> 10 \<and>
   keepLength \<lparr>level = 10, language = ''en''\<rparr> (str ''hello'') = 1 \<and>
   partialWord \<lparr>level = 10, language = ''en''\<rparr> (str ''hello'') (sconst (1 / 2))
     = (str ''h...'', sconst (1 / 2)) \<and>
   str ''hi'' \<noteq> [] \<and> length (str ''hi'') \<le> 3 \<and>
   partialWord \<lparr>level = 10, language = ''en''\<rparr> (str ''hi'') (sconst (1 / 2))
     = (str ''h...'', sconst (1 / 2))"
proof -
  have k: "keepLength \<lparr>level = 10, language = ''en''\<rparr> (str ''hello'') = 1"
    by (simp add: keepLength_def str_simps)
  show ?thesis
    using k
      partialWord_truncation [of "str ''hello''" "\<lparr>level = 10, language = ''en''\<rparr>"
        "sconst (1 / 2)"]
      partialWord_truncation [of "str ''hi''" "\<lparr>level = 10, language = ''en''\<rparr>"
        "sconst (1 / 2)"]
    by (simp add: str_simps prod_eq_iff)
qed

section \<open>The loss percentage\<close>

lemma split_ws_nonempty: "split_ws x \<noteq> []"
  by (subst split_ws.simps) (simp split: list.splits)

lemma lossOf_upper: "lossOf ws d \<le> 100"
proof (cases "length ws > 0")
  case False
  then show ?thesis by (simp add: lossOf_def)
next
  case True
  define q where
    "q = real (length (filter (\<lambda>w. w \<noteq> placeholder) (split_ws d))) / real (length ws)"
  have "0 \<le> q" by (simp add: q_def)
  then have "(1 - q) * 100 + 1 / 2 < real_of_int 101" by simp
  then have "\<lfloor>(1 - q) * 100 + 1 / 2\<rfloor> < 101" by (simp only: floor_less_iff)
  then have "math_round ((1 - q) * 100) \<le> 100" by (simp add: math_round_def)
  then show ?thesis using True unfolding lossOf_def q_def by simp
qed

lemma lossOf_kept_below:
  assumes "length ws < 200" and "\<exists>t \<in> set (split_ws d). t \<noteq> placeholder"
  shows "lossOf ws d < 100"
proof (cases "length ws > 0")
  case False
  then show ?thesis by (simp add: lossOf_def)
next
  case True
  let ?n = "real (length ws)"
  let ?k = "real (length (filter (\<lambda>w. w \<noteq> placeholder) (split_ws d)))"
  have "filter (\<lambda>w. w \<noteq> placeholder) (split_ws d) \<noteq> []"
    using assms(2) by (simp add: filter_empty_conv)
  then have k: "1 \<le> ?k" by (simp add: Suc_le_eq)
  have n: "0 < ?n" "?n < 200" using True assms(1) by simp_all
  define q where "q = ?k / ?n"
  have "1 / ?n \<le> q" unfolding q_def using k n(1) by (intro divide_right_mono) simp_all
  moreover have "1 / 200 < 1 / ?n" using n by (intro divide_strict_left_mono) simp_all
  ultimately have "(1 - q) * 100 + 1 / 2 < real_of_int 100" by simp
  then have "\<lfloor>(1 - q) * 100 + 1 / 2\<rfloor> < 100" by (simp only: floor_less_iff)
  then have "math_round ((1 - q) * 100) < 100" by (simp add: math_round_def)
  then show ?thesis using True unfolding lossOf_def q_def by simp
qed

lemma lossOf_unrounded_below:
  assumes "\<exists>t \<in> set (split_ws d). t \<noteq> placeholder" and "0 < length ws"
  shows "(1 - real (length (filter (\<lambda>w. w \<noteq> placeholder) (split_ws d))) / real (length ws)) * 100
           < 100"
proof -
  have "filter (\<lambda>w. w \<noteq> placeholder) (split_ws d) \<noteq> []"
    using assms(1) by (simp add: filter_empty_conv)
  then have k: "0 < real (length (filter (\<lambda>w. w \<noteq> placeholder) (split_ws d)))" by simp
  define q where
    "q = real (length (filter (\<lambda>w. w \<noteq> placeholder) (split_ws d))) / real (length ws)"
  have "0 < q" unfolding q_def using k assms(2) by simp
  then have "(1 - q) * 100 < 100" by simp
  then show ?thesis unfolding q_def .
qed

lemma lossPercentage_simulate:
  "lossPercentage (fst (simulate s input g))
     = max 0 (lossOf (split_ws input) (degraded (fst (simulate s input g))))"
  by (simp add: simulate_fst)

text \<open>
  Claim C10, amended. Both the input and the degraded string are split into at least
  one piece, and the reported loss lies between 0 and 100. When no piece of the
  degraded string is the placeholder, the loss before rounding is below 100; the
  reported loss is below 100 as well provided the input has fewer than 200 tokens.
  With fewer than 200 input tokens, a reported loss of 100 means that every piece of
  the degraded string is the placeholder.
\<close>

theorem loss_below_100_without_placeholder:
  "1 \<le> length (split_ws input) \<and>
   1 \<le> length (split_ws (degraded (fst (simulate s input g)))) \<and>
   0 \<le> lossPercentage (fst (simulate s input g)) \<and>
   lossPercentage (fst (simulate s input g)) \<le> 100 \<and>
   (placeholder \<notin> set (split_ws (degraded (fst (simulate s input g)))) \<longrightarrow>
      (1 - real (length (filter (\<lambda>w. w \<noteq> placeholder)
                  (split_ws (degraded (fst (simulate s input g))))))
           / real (length (split_ws input))) * 100 < 100) \<and>
   (length (split_ws input) < 200 \<and>
    placeholder \<notin> set (split_ws (degraded (fst (simulate s input g)))) \<longrightarrow>
      lossPercentage (fst (simulate s input g)) < 100) \<and>
   (length (split_ws input) < 200 \<and> lossPercentage (fst (simulate s input g)) = 100 \<longrightarrow>
      (\<forall>t \<in> set (split_ws (degraded (fst (simulate s input g)))). t = placeholder))"
proof -
  let ?d = "degraded (fst (simulate s input g))"
  have n: "1 \<le> length (split_ws input)"
    using split_ws_nonempty [of input] by (simp add: Suc_le_eq)
  have m: "1 \<le> length (split_ws ?d)"
    using split_ws_nonempty [of ?d] by (simp add: Suc_le_eq)
  have lo: "0 \<le> lossPercentage (fst (simulate s input g))"
    unfolding lossPercentage_simulate [of s input g] by simp
  have hi: "lossPercentage (fst (simulate s input g)) \<le> 100"
    unfolding lossPercentage_simulate [of s input g]
    using lossOf_upper [of "split_ws input" ?d] by simp
  have ex: "\<exists>t \<in> set (split_ws ?d). t \<noteq> placeholder"
    if ph: "placeholder \<notin> set (split_ws ?d)"
  proof -
    have "split_ws ?d \<noteq> []" by (rule split_ws_nonempty)
    then obtain t ts where "split_ws ?d = t # ts" by (meson neq_Nil_conv)
    then have t: "t \<in> set (split_ws ?d)" by simp
    then have "t \<noteq> placeholder" using ph by metis
    with t show ?thesis by (rule bexI [rotated])
  qed
  have un: "(1 - real (length (filter (\<lambda>w. w \<noteq> placeholder) (split_ws ?d)))
           / real (length (split_ws input))) * 100 < 100"
    if "placeholder \<notin> set (split_ws ?d)"
  proof -
    have "0 < length (split_ws input)" using split_ws_nonempty [of input] by simp
    with ex [OF that] show ?thesis by (rule lossOf_unrounded_below)
  qed
  have below: "lossPercentage (fst (simulate s input g)) < 100"
    if "length (split_ws input) < 200" "\<exists>t \<in> set (split_ws ?d). t \<noteq> placeholder"
    unfolding lossPercentage_simulate [of s input g]
    using lossOf_kept_below [OF that] by simp
  have only: "\<forall>t \<in> set (split_ws ?d). t = placeholder"
    if "length (split_ws input) < 200" "lossPercentage (fst (simulate s input g)) = 100"
  proof -
    have "\<not> (\<exists>t \<in> set (split_ws ?d). t \<noteq> placeholder)"
    proof
      assume "\<exists>t \<in> set (split_ws ?d). t \<noteq> placeholder"
      then have "lossPercentage (fst (simulate s input g)) < 100" by (rule below [OF that(1)])
      then show False using that(2) by linarith
    qed
    then show ?thesis by blast
  qed
  show ?thesis
  proof (intro conjI impI)
    show "1 \<le> length (split_ws input)" by (rule n)
    show "1 \<le> length (split_ws ?d)" by (rule m)
    show "0 \<le> lossPercentage (fst (simulate s input g))" by (rule lo)
    show "lossPercentage (fst (simulate s input g)) \<le> 100" by (rule hi)
  next
    assume "placeholder \<notin> set (split_ws ?d)"
    then show "(1 - real (length (filter (\<lambda>w. w \<noteq> placeholder) (split_ws ?d)))
           / real (length (split_ws input))) * 100 < 100" by (rule un)
  next
    assume "length (split_ws input) < 200 \<and> placeholder \<notin> set (split_ws ?d)"
    then show "lossPercentage (fst (simulate s input g)) < 100"
      using below ex by blast
  next
    assume "length (split_ws input) < 200 \<and> lossPercentage (fst (simulate s input g)) = 100"
    then show "\<forall>t \<in> set (split_ws ?d). t = placeholder"
      using only by blast
  qed
qed


lemma split_ws_word_space:
  assumes "\<not> isWhiteSpace c" and "isWhiteSpace b" and "\<not> isWhiteSpace d"
  shows "split_ws (c # b # d # rest) = [c] # split_ws (d # rest)"
  using assms by (simp add: split_ws.simps [of "c # b # d # rest"])

lemma split_ws_repeated_units:
  "split_ws (concat (replicate n [97, 32]) @ [97]) = replicate (Suc n) [97]"
proof (induction n)
  case 0
  show ?case by (simp add: split_ws.simps isWhiteSpace_def)
next
  case (Suc n)
  obtain rest :: jsstring where r: "concat (replicate n [97, 32]) @ [97] = 97 # rest"
    by (cases n) simp_all
  have "concat (replicate (Suc n) [97, 32]) @ [97] = 97 # 32 # 97 # rest"
    using r by simp
  then have "split_ws (concat (replicate (Suc n) [97, 32]) @ [97])
          = split_ws (97 # 32 # 97 # rest)"
    by (rule arg_cong)
  also have "\<dots> = [97] # split_ws (97 # rest)"
    by (rule split_ws_word_space) (simp_all add: isWhiteSpace_def)
  also have "\<dots> = [97] # replicate (Suc n) [97]"
    using Suc.IH r by simp
  finally show ?case by simp
qed

lemma replicate_200: "replicate 200 x = x # replicate 199 x"
proof -
  have "replicate (Suc 199) x = x # replicate 199 x" by (rule replicate_Suc)
  then show ?thesis by simp
qed

lemma split_ws_repeated:
  "split_ws (concat (replicate 199 (str ''a '')) @ str ''a'') = replicate 200 (str ''a'')"
  using split_ws_repeated_units [of 199] by (simp add: str_simps)

lemma drop_a:
  "decideAction \<lparr>level = 10, language = ''agnostic''\<rparr> (str ''a'') (sconst (99 / 100))
     = (Drop, sconst (99 / 100))"
  by (simp add: decideAction_def partialThreshold_def garbleThreshold_def keepThreshold_def
      keepRate_def recognitionRates_def importanceBonus_def garbleRate_def partialRate_def)

lemma keep_a:
  "decideAction \<lparr>level = 10, language = ''agnostic''\<rparr> (str ''a'')
       (0 ## sconst (99 / 100))
     = (Keep, sconst (99 / 100))"
  by (simp add: decideAction_def keepThreshold_def keepRate_def recognitionRates_def
      importanceBonus_def)

lemma simulate_loop_all_dropped:
  "simulate_loop \<lparr>level = 10, language = ''agnostic''\<rparr> (replicate n (str ''a'')) acc k
       (sconst (99 / 100))
     = (acc, k + n, sconst (99 / 100))"
  by (induction n arbitrary: k) (simp_all add: drop_a)

lemma loss_one_of_200: "lossOf (replicate 200 w) (str ''a'') = 100"
proof -
  have "split_ws (str ''a'') = [str ''a'']"
    by (simp add: split_ws.simps str_simps isWhiteSpace_def)
  then show ?thesis
    by (simp add: lossOf_def math_round_def placeholder_def str_simps)
qed

text \<open>
  Claim C10, as stated, fails by rounding. The input is the word \<open>a\<close> 200 times,
  separated by single spaces, at level 10; the first draw is 0 and every other draw is
  0.99, so the first token is kept and the other 199 are dropped without placeholder.
  The degraded string is \<open>a\<close>, which holds no placeholder, and the loss is
  \<open>Math.round(99.5)\<close>, that is 100.
\<close>

theorem loss_100_with_a_kept_token:
  "fst (simulate \<lparr>level = 10, language = ''agnostic''\<rparr>
          (concat (replicate 199 (str ''a '')) @ str ''a'') (0 ## sconst (99 / 100)))
     = \<lparr>original = concat (replicate 199 (str ''a '')) @ str ''a'',
        degraded = str ''a'', lossPercentage = 100\<rparr> \<and>
   length (split_ws (concat (replicate 199 (str ''a '')) @ str ''a'')) = 200 \<and>
   split_ws (str ''a'') = [str ''a''] \<and> str ''a'' \<noteq> placeholder"
proof -
  have w: "split_ws (concat (replicate 199 (str ''a '')) @ str ''a'')
             = str ''a'' # replicate 199 (str ''a'')"
    by (simp only: split_ws_repeated replicate_200)
  have l: "simulate_loop \<lparr>level = 10, language = ''agnostic''\<rparr>
             (str ''a'' # replicate 199 (str ''a'')) [] 0 (0 ## sconst (99 / 100))
           = ([str ''a''], 199, sconst (99 / 100))"
    by (simp add: keep_a simulate_loop_all_dropped)
  have t: "trim (collapse_ws (join_space [str ''a''])) = str ''a''"
    by (simp add: trim_def str_simps isWhiteSpace_def)
  have r: "str ''a'' # replicate 199 (str ''a'') = replicate 200 (str ''a'')"
    by (simp only: replicate_200)
  have lo: "lossOf (str ''a'' # replicate 199 (str ''a'')) (str ''a'') = 100"
    unfolding r by (rule loss_one_of_200)
  have sa: "split_ws (str ''a'') = [str ''a'']"
    by (simp add: split_ws.simps str_simps isWhiteSpace_def)
  have "fst (simulate \<lparr>level = 10, language = ''agnostic''\<rparr>
          (concat (replicate 199 (str ''a '')) @ str ''a'') (0 ## sconst (99 / 100)))
     = \<lparr>original = concat (replicate 199 (str ''a '')) @ str ''a'',
        degraded = str ''a'', lossPercentage = 100\<rparr>"
    unfolding simulate_fst w l fst_conv t lo by simp
  moreover have "length (split_ws (concat (replicate 199 (str ''a '')) @ str ''a'')) = 200"
    unfolding w by simp
  moreover have "str ''a'' \<noteq> placeholder" by (simp add: placeholder_def str_simps)
  ultimately show ?thesis using sa by simp
qed

theorem loss_below_100_without_placeholder_witness:
  "length (split_ws (str ''Hello world'')) < 200 \<and>
   degraded (fst (simulate \<lparr>level = 10, language = ''agnostic''\<rparr> (str ''Hello world'')
                    (sconst (99 / 100)))) = [] \<and>
   placeholder \<notin> set (split_ws [])  \<and>
   lossPercentage (fst (simulate \<lparr>level = 10, language = ''agnostic''\<rparr> (str ''Hello world'')
                    (sconst (99 / 100)))) < 100"
proof -
  have d: "degraded (fst (simulate \<lparr>level = 10, language = ''agnostic''\<rparr> (str ''Hello world'')
                    (sconst (99 / 100)))) = []"
    unfolding simulate_fst split_hello_world loop_hello_world fst_conv by (simp add: trim_def)
  have p: "placeholder \<notin> set (split_ws [])"
    by (simp add: split_ws_Nil placeholder_def str_simps)
  have n: "length (split_ws (str ''Hello world'')) < 200"
    by (simp add: split_hello_world)
  show ?thesis
    using d p n loss_below_100_without_placeholder [of "str ''Hello world''" "\<lparr>level = 10, language = ''agnostic''\<rparr>"
        "sconst (99 / 100)"]
    by simp
qed

section \<open>The Italian cluster entries\<close>

lemmas garble_eval = garbleWord_def numChanges_def garble_edit_def getSimilarChar_def
  getSimilarCharsMap_def italianMap_def strs_def split_chars_def toLowerCase_def lowerUnit_def
  toUpperCase_def upperUnit_def Let_def str_simps

lemma cluster_keys:
  "map fst (drop 21 italianMap) =
     [str ''cc'', str ''gg'', str ''ss'', str ''zz'', str ''tt'', str ''dd'', str ''pp'',
      str ''bb'', str ''rr'', str ''ll'', str ''mm'', str ''nn'', str ''gl'', str ''gn'',
      str ''sc'', str ''ch'', str ''gh'']"
  by (simp add: italianMap_def)

lemma mamma_delete:
  "garble_edit \<lparr>level = 9, language = ''it''\<rparr> (split_chars (str ''mamma''))
       (3 / 4 ## 7 / 8 ## 1 / 2 ## 1 / 8 ## 1 / 2 ## 1 / 2 ## 1 / 8 ## 1 / 2 ## sconst 0)
     = ([str ''m'', str ''a'', str ''m'', str ''a''],
        1 / 2 ## 1 / 8 ## 1 / 2 ## 1 / 2 ## 1 / 8 ## 1 / 2 ## sconst 0)"
  by (simp add: garble_eval)

lemma mamma_double:
  "garble_edit \<lparr>level = 9, language = ''it''\<rparr> [str ''m'', str ''a'', str ''m'', str ''a'']
       (1 / 2 ## 1 / 8 ## 1 / 2 ## 1 / 2 ## 1 / 8 ## 1 / 2 ## sconst 0)
     = ([str ''m'', str ''a'', str ''mm'', str ''a''], 1 / 2 ## 1 / 8 ## 1 / 2 ## sconst 0)"
  by (simp add: garble_eval)

lemma mamma_cluster:
  "garble_edit \<lparr>level = 9, language = ''it''\<rparr> [str ''m'', str ''a'', str ''mm'', str ''a'']
       (1 / 2 ## 1 / 8 ## 1 / 2 ## sconst 0)
     = ([str ''m'', str ''a'', str ''nn'', str ''a''], sconst 0)"
  by (simp add: garble_eval)

lemma mamma_lookup:
  "getSimilarChar \<lparr>level = 9, language = ''it''\<rparr> (str ''mm'') (1 / 2 ## sconst 0)
     = (str ''nn'', sconst 0)"
  by (simp add: garble_eval)

lemma mamma_manna:
  "garbleWord \<lparr>level = 9, language = ''it''\<rparr> (str ''mamma'')
       (3 / 4 ## 7 / 8 ## 1 / 2 ## 1 / 8 ## 1 / 2 ## 1 / 2 ## 1 / 8 ## 1 / 2 ## sconst 0)
     = (str ''manna'', sconst 0)"
  by (simp add: garble_eval garble_loop.simps)

lemma mamma_agnostic:
  "garbleWord \<lparr>level = 9, language = ''agnostic''\<rparr> (str ''mamma'')
       (3 / 4 ## 7 / 8 ## 1 / 2 ## 1 / 8 ## 1 / 2 ## 1 / 2 ## 1 / 8 ## 1 / 2 ## sconst 0)
     = (str ''mada'', sconst 0)"
  by (simp add: garble_eval agnosticMap_def garble_loop.simps)

lemma mm_entries:
  "map_of italianMap (str ''mm'') = Some [str ''m'', str ''nn'']"
  "map_of agnosticMap (str ''mm'') = None"
  "map_of agnosticMap (str ''m'') = Some [str ''n'', str ''b'']"
  by (simp_all add: italianMap_def agnosticMap_def strs_def str_simps)

text \<open>
  Claim C9. The token \<open>mamma\<close> holds the doubled consonant \<open>mm\<close>, which is one
  of the two-letter keys of the Italian table, with the entry \<open>m\<close>, \<open>nn\<close>; the
  agnostic table has no such key. At level 9 in Italian mode three edits are made. With
  the draws 0.75, 0.875, 0.5, 0.125, 0.5, 0.5, 0.125, 0.5 (all in \<open>[0, 1)\<close>), the
  first edit deletes one \<open>m\<close> of the cluster, the second turns the other into
  \<open>mm\<close> in one position, and the third looks up that element: the key is \<open>mm\<close>
  and the replacement \<open>nn\<close> is drawn from the cluster entry. The output is
  \<open>manna\<close>, the token with its cluster replaced from the cluster entry; so such a
  random sequence exists. The same draws in agnostic mode give \<open>mada\<close>.
\<close>

theorem italian_cluster_entry_consulted:
  "str ''mamma'' = str ''ma'' @ str ''mm'' @ str ''a'' \<and>
   str ''mm'' \<in> set (map fst (drop 21 italianMap)) \<and>
   map_of italianMap (str ''mm'') = Some [str ''m'', str ''nn''] \<and>
   map_of agnosticMap (str ''mm'') = None \<and>
   map_of agnosticMap (str ''m'') = Some [str ''n'', str ''b''] \<and>
   sset (3 / 4 ## 7 / 8 ## 1 / 2 ## 1 / 8 ## 1 / 2 ## 1 / 2 ## 1 / 8 ## 1 / 2 ## sconst (0::real))
     = {3 / 4, 7 / 8, 1 / 2, 1 / 8, 0} \<and>
   numChanges \<lparr>level = 9, language = ''it''\<rparr> (str ''mamma'') = 3 \<and>
   garble_edit \<lparr>level = 9, language = ''it''\<rparr> (split_chars (str ''mamma''))
       (3 / 4 ## 7 / 8 ## 1 / 2 ## 1 / 8 ## 1 / 2 ## 1 / 2 ## 1 / 8 ## 1 / 2 ## sconst 0)
     = ([str ''m'', str ''a'', str ''m'', str ''a''],
        1 / 2 ## 1 / 8 ## 1 / 2 ## 1 / 2 ## 1 / 8 ## 1 / 2 ## sconst 0) \<and>
   garble_edit \<lparr>level = 9, language = ''it''\<rparr> [str ''m'', str ''a'', str ''m'', str ''a'']
       (1 / 2 ## 1 / 8 ## 1 / 2 ## 1 / 2 ## 1 / 8 ## 1 / 2 ## sconst 0)
     = ([str ''m'', str ''a'', str ''mm'', str ''a''], 1 / 2 ## 1 / 8 ## 1 / 2 ## sconst 0) \<and>
   garble_edit \<lparr>level = 9, language = ''it''\<rparr> [str ''m'', str ''a'', str ''mm'', str ''a'']
       (1 / 2 ## 1 / 8 ## 1 / 2 ## sconst 0)
     = ([str ''m'', str ''a'', str ''nn'', str ''a''], sconst 0) \<and>
   getSimilarChar \<lparr>level = 9, language = ''it''\<rparr> (str ''mm'') (1 / 2 ## sconst 0)
     = (str ''nn'', sconst 0) \<and>
   garbleWord \<lparr>level = 9, language = ''it''\<rparr> (str ''mamma'')
       (3 / 4 ## 7 / 8 ## 1 / 2 ## 1 / 8 ## 1 / 2 ## 1 / 2 ## 1 / 8 ## 1 / 2 ## sconst 0)
     = (str ''ma'' @ str ''nn'' @ str ''a'', sconst 0) \<and>
   (\<exists>g. fst (garbleWord \<lparr>level = 9, language = ''it''\<rparr> (str ''mamma'') g)
           = str ''ma'' @ str ''nn'' @ str ''a'') \<and>
   garbleWord \<lparr>level = 9, language = ''agnostic''\<rparr> (str ''mamma'')
       (3 / 4 ## 7 / 8 ## 1 / 2 ## 1 / 8 ## 1 / 2 ## 1 / 2 ## 1 / 8 ## 1 / 2 ## sconst 0)
     = (str ''mada'', sconst 0)"
proof -
  have a: "str ''mamma'' = str ''ma'' @ str ''mm'' @ str ''a''" by (simp add: str_simps)
  have b: "str ''mm'' \<in> set (map fst (drop 21 italianMap))" unfolding cluster_keys by simp
  have c: "sset (3 / 4 ## 7 / 8 ## 1 / 2 ## 1 / 8 ## 1 / 2 ## 1 / 2 ## 1 / 8 ## 1 / 2
                  ## sconst (0::real)) = {3 / 4, 7 / 8, 1 / 2, 1 / 8, 0}"
    by auto
  have n: "numChanges \<lparr>level = 9, language = ''it''\<rparr> (str ''mamma'') = 3"
    by (simp add: numChanges_def str_simps)
  have r: "garbleWord \<lparr>level = 9, language = ''it''\<rparr> (str ''mamma'')
       (3 / 4 ## 7 / 8 ## 1 / 2 ## 1 / 8 ## 1 / 2 ## 1 / 2 ## 1 / 8 ## 1 / 2 ## sconst 0)
     = (str ''ma'' @ str ''nn'' @ str ''a'', sconst 0)"
    using mamma_manna by (simp add: str_simps)
  have e: "\<exists>g. fst (garbleWord \<lparr>level = 9, language = ''it''\<rparr> (str ''mamma'') g)
           = str ''ma'' @ str ''nn'' @ str ''a''"
  proof
    show "fst (garbleWord \<lparr>level = 9, language = ''it''\<rparr> (str ''mamma'')
       (3 / 4 ## 7 / 8 ## 1 / 2 ## 1 / 8 ## 1 / 2 ## 1 / 2 ## 1 / 8 ## 1 / 2 ## sconst 0))
     = str ''ma'' @ str ''nn'' @ str ''a''" unfolding r by simp
  qed
  show ?thesis
    using a b mm_entries c n mamma_delete mamma_double mamma_cluster mamma_lookup r e
      mamma_agnostic
    by (intro conjI)
qed

end
